theory Spec2Isabelle
  imports Complex_Main "HOL-Library.Stream" "HOL-Library.Signed_Division"
begin

section \<open>The per-frame simulation of the paddle game (src/main.cpp)\<close>

text \<open>
  The embedding follows \<^verbatim>\<open>main.cpp\<close> section by section. Conventions:
  \<^item> C++ \<^verbatim>\<open>float\<close> values are modelled as \<^typ>\<open>real\<close>: rounding, infinities and NaN are
    idealised away. All constants of the game that matter below (4.0, 400.0, 300.0, 585, 15)
    are exactly representable; \<^verbatim>\<open>M_PI\<close> is read as \<^term>\<open>pi\<close>.
  \<^item> C++ \<^verbatim>\<open>int\<close> values are modelled as \<^typ>\<open>int\<close>. Timers and paddle coordinates stay
    far away from the 32-bit range; a score counter would need \<open>2^31\<close> points to overflow.
  \<^item> The file-scope variables of the program, the local flag \<^verbatim>\<open>reflected_this_frame\<close>,
    the loop flag \<^verbatim>\<open>quit\<close> and the hidden state of \<^verbatim>\<open>rand()\<close> form one record that
    every section of the frame takes and returns.
  \<^item> \<^verbatim>\<open>rand()\<close> is the stream of the values it is going to return. The do-while loop
    that rejects angles may run forever on an unlucky stream, so it is a partial function
    into \<open>option\<close>, and with it the frame.
  \<^item> Rendering, sound and text calls change no gameplay variable and are left out.
\<close>

subsection \<open>Constants\<close>

named_theorems game_consts \<open>the constants of main.cpp and coin.cpp\<close>

definition WINDOW_WIDTH :: int where [game_consts]: "WINDOW_WIDTH = 800"
definition WINDOW_HEIGHT :: int where [game_consts]: "WINDOW_HEIGHT = 600"
definition BALL_DIAMETER :: int where [game_consts]: "BALL_DIAMETER = 30"
definition BALL_RADIUS :: int where [game_consts]: "BALL_RADIUS = BALL_DIAMETER sdiv 2"
definition INITIAL_BALL_SPEED :: real where [game_consts]: "INITIAL_BALL_SPEED = 4"
definition BALL_BOOST_FACTOR :: real where [game_consts]: "BALL_BOOST_FACTOR = 12 / 10"
definition BALL_BOOST_DURATION_FRAMES :: int where [game_consts]: "BALL_BOOST_DURATION_FRAMES = 30"
definition PADDLE_WIDTH :: int where [game_consts]: "PADDLE_WIDTH = 20"
definition PADDLE_HEIGHT :: int where [game_consts]: "PADDLE_HEIGHT = 100"
definition PADDLE_SPEED :: real where [game_consts]: "PADDLE_SPEED = 6"
definition COIN_DRAW_SCALE :: real where [game_consts]: "COIN_DRAW_SCALE = 8 / 10"
definition COIN_APPEAR_INTERVAL_FRAMES :: int where [game_consts]: "COIN_APPEAR_INTERVAL_FRAMES = 300"
definition COIN_DURATION_FRAMES :: int where [game_consts]: "COIN_DURATION_FRAMES = 600"
definition DEFAULT_COIN_FRAME_WIDTH :: int where [game_consts]: "DEFAULT_COIN_FRAME_WIDTH = 32"
definition DEFAULT_COIN_FRAME_HEIGHT :: int where [game_consts]: "DEFAULT_COIN_FRAME_HEIGHT = 32"

subsection \<open>Data\<close>

record SDL_Rect =
  rect_x :: int
  rect_y :: int
  rect_w :: int
  rect_h :: int

record Coin =
  coin_x :: real
  coin_y :: real
  coin_timer :: int

datatype LastHit = NoPaddle | LeftPaddle | RightPaddle

datatype SDL_Event = SDL_QUIT | SDL_MOUSEBUTTONDOWN int int | SDL_OTHER

text \<open>
  What the program takes from its platform: the constant \<^verbatim>\<open>RAND_MAX\<close>, the pixel sizes of
  the coin textures that \<^verbatim>\<open>initCoinSystem\<close> loaded (width, height), and the SDL library
  function \<^verbatim>\<open>SDL_HasIntersection\<close>.
\<close>

record platform =
  RAND_MAX :: int
  gCoinTextures :: "(int \<times> int) list"
  SDL_HasIntersection :: "SDL_Rect \<Rightarrow> SDL_Rect \<Rightarrow> bool"

record game =
  ball_x :: real
  ball_y :: real
  ball_dx :: real
  ball_dy :: real
  current_ball_speed :: real
  ball_boost_timer :: int
  leftPaddle :: SDL_Rect
  rightPaddle :: SDL_Rect
  coins :: "Coin list"
  coin_spawn_timer :: int
  left_score :: int
  right_score :: int
  last_ball_hit :: LastHit
  left_consecutive_hits :: int
  right_consecutive_hits :: int
  reflected_this_frame :: bool
  quit :: bool
  rand_state :: "int stream"

text \<open>One iteration of the main loop reads the pending events and the four movement keys.\<close>

record frame_input =
  events :: "SDL_Event list"
  key_W :: bool
  key_S :: bool
  key_UP :: bool
  key_DOWN :: bool

text \<open>The initialisers of the file-scope variables; \<open>g\<close> is what \<^verbatim>\<open>rand()\<close> will return.\<close>

definition initial_state :: "int stream \<Rightarrow> game" where
  "initial_state g =
     \<lparr> ball_x = real_of_int WINDOW_WIDTH / 2,
       ball_y = real_of_int WINDOW_HEIGHT / 2,
       ball_dx = 0,
       ball_dy = 0,
       current_ball_speed = INITIAL_BALL_SPEED,
       ball_boost_timer = 0,
       leftPaddle = \<lparr> rect_x = 0, rect_y = (WINDOW_HEIGHT - PADDLE_HEIGHT) sdiv 2,
                      rect_w = PADDLE_WIDTH, rect_h = PADDLE_HEIGHT \<rparr>,
       rightPaddle = \<lparr> rect_x = WINDOW_WIDTH - PADDLE_WIDTH,
                       rect_y = (WINDOW_HEIGHT - PADDLE_HEIGHT) sdiv 2,
                       rect_w = PADDLE_WIDTH, rect_h = PADDLE_HEIGHT \<rparr>,
       coins = [],
       coin_spawn_timer = 0,
       left_score = 0,
       right_score = 0,
       last_ball_hit = NoPaddle,
       left_consecutive_hits = 0,
       right_consecutive_hits = 0,
       reflected_this_frame = False,
       quit = False,
       rand_state = g \<rparr>"

subsection \<open>Conversions and the collision utilities\<close>

text \<open>\<^verbatim>\<open>static_cast<int>\<close> of a float truncates towards zero.\<close>

definition float_to_int :: "real \<Rightarrow> int" where
  "float_to_int r = (if 0 \<le> r then \<lfloor>r\<rfloor> else \<lceil>r\<rceil>)"

definition checkCircleRectCollision :: "real \<Rightarrow> real \<Rightarrow> int \<Rightarrow> SDL_Rect \<Rightarrow> bool" where
  "checkCircleRectCollision circleX circleY circleRadius rect =
     (let closestX = max (real_of_int (rect_x rect))
                         (min circleX (real_of_int (rect_x rect + rect_w rect)));
          closestY = max (real_of_int (rect_y rect))
                         (min circleY (real_of_int (rect_y rect + rect_h rect)));
          distanceX = circleX - closestX;
          distanceY = circleY - closestY
      in distanceX * distanceX + distanceY * distanceY
           < real_of_int (circleRadius * circleRadius))"

definition checkRectRectCollision :: "platform \<Rightarrow> SDL_Rect \<Rightarrow> SDL_Rect \<Rightarrow> bool" where
  "checkRectRectCollision p rect1 rect2 = SDL_HasIntersection p rect1 rect2"

text \<open>
  The behaviour of SDL2's \<^verbatim>\<open>SDL_HasIntersection\<close> on two non-null rectangles: empty
  rectangles meet nothing, otherwise the half-open extents must overlap on both axes. It
  is used to instantiate the platform in concrete runs.
\<close>

definition sdl_has_intersection :: "SDL_Rect \<Rightarrow> SDL_Rect \<Rightarrow> bool" where
  "sdl_has_intersection a b =
     (if rect_w a \<le> 0 \<or> rect_h a \<le> 0 \<or> rect_w b \<le> 0 \<or> rect_h b \<le> 0 then False
      else max (rect_x a) (rect_x b) < min (rect_x a + rect_w a) (rect_x b + rect_w b)
         \<and> max (rect_y a) (rect_y b) < min (rect_y a + rect_h a) (rect_y b + rect_h b))"

subsection \<open>The coin size queries (coin.cpp)\<close>

definition getCoinRenderedWidth :: "platform \<Rightarrow> real \<Rightarrow> int" where
  "getCoinRenderedWidth p scale =
     (case gCoinTextures p of
        [] \<Rightarrow> float_to_int (real_of_int DEFAULT_COIN_FRAME_WIDTH * scale)
      | (originalWidth, originalHeight) # _ \<Rightarrow> float_to_int (real_of_int originalWidth * scale))"

definition getCoinRenderedHeight :: "platform \<Rightarrow> real \<Rightarrow> int" where
  "getCoinRenderedHeight p scale =
     (case gCoinTextures p of
        [] \<Rightarrow> float_to_int (real_of_int DEFAULT_COIN_FRAME_HEIGHT * scale)
      | (originalWidth, originalHeight) # _ \<Rightarrow> float_to_int (real_of_int originalHeight * scale))"

subsection \<open>The randomized launch direction\<close>

text \<open>
  \<^verbatim>\<open>angle = float(rand()) / float(RAND_MAX) * 2.0f * M_PI\<close> for one value of \<^verbatim>\<open>rand()\<close>.
\<close>

definition angle_of_rand :: "platform \<Rightarrow> int \<Rightarrow> real" where
  "angle_of_rand p r = real_of_int r / real_of_int (RAND_MAX p) * 2 * pi"

text \<open>
  The do-while loop: draw an angle, and draw again while it is too close to an axis. It
  returns the accepted angle and the rest of the stream, or nothing when every value to
  come is rejected.
\<close>

partial_function (option) random_angle :: "platform \<Rightarrow> int stream \<Rightarrow> (real \<times> int stream) option" where
  "random_angle p g =
     (let angle = angle_of_rand p (shd g) in
      if \<bar>sin angle\<bar> < 2 / 10 \<or> \<bar>cos angle\<bar> < 2 / 10 then random_angle p (stl g)
      else Some (angle, stl g))"

text \<open>
  The lines that follow the loop, the same at the launch and at both resets: the direction
  is \<open>(cos angle, sin angle)\<close>, divided by its magnitude unless that is zero.
\<close>

definition set_direction :: "real \<Rightarrow> game \<Rightarrow> game" where
  "set_direction angle s =
     (let dx = cos angle;
          dy = sin angle;
          magnitude = sqrt (dx * dx + dy * dy)
      in if magnitude \<noteq> 0 then s\<lparr> ball_dx := dx / magnitude, ball_dy := dy / magnitude \<rparr>
         else s\<lparr> ball_dx := dx, ball_dy := dy \<rparr>)"

subsection \<open>Event handling\<close>

definition mouse_button_down :: "platform \<Rightarrow> int \<Rightarrow> int \<Rightarrow> game \<Rightarrow> game option" where
  "mouse_button_down p mouseX mouseY s =
     (if ball_dx s = 0 \<and> ball_dy s = 0 then
        let distance = sqrt ((real_of_int mouseX - ball_x s)\<^sup>2 + (real_of_int mouseY - ball_y s)\<^sup>2)
        in if distance \<le> real_of_int BALL_RADIUS then
             (case random_angle p (rand_state s) of
                None \<Rightarrow> None
              | Some (angle, g) \<Rightarrow>
                  Some ((set_direction angle (s\<lparr> rand_state := g \<rparr>))
                          \<lparr> current_ball_speed := INITIAL_BALL_SPEED, ball_boost_timer := 0 \<rparr>))
           else Some s
      else Some s)"

fun handle_event :: "platform \<Rightarrow> SDL_Event \<Rightarrow> game \<Rightarrow> game option" where
  "handle_event p SDL_QUIT s = Some (s\<lparr> quit := True \<rparr>)"
| "handle_event p (SDL_MOUSEBUTTONDOWN mouseX mouseY) s = mouse_button_down p mouseX mouseY s"
| "handle_event p SDL_OTHER s = Some s"

fun handle_events :: "platform \<Rightarrow> SDL_Event list \<Rightarrow> game \<Rightarrow> game option" where
  "handle_events p [] s = Some s"
| "handle_events p (e # es) s =
     (case handle_event p e s of None \<Rightarrow> None | Some s' \<Rightarrow> handle_events p es s')"

subsection \<open>Paddles\<close>

text \<open>
  \<^verbatim>\<open>leftPaddle.y -= PADDLE_SPEED\<close> subtracts a float from an int: the int goes to float,
  the difference comes back truncated.
\<close>

definition move_rect_y :: "real \<Rightarrow> SDL_Rect \<Rightarrow> SDL_Rect" where
  "move_rect_y d r = r\<lparr> rect_y := float_to_int (real_of_int (rect_y r) + d) \<rparr>"

definition paddle_movement :: "frame_input \<Rightarrow> game \<Rightarrow> game" where
  "paddle_movement i s =
     (let s1 = (if key_W i then s\<lparr> leftPaddle := move_rect_y (- PADDLE_SPEED) (leftPaddle s) \<rparr> else s);
          s2 = (if key_S i then s1\<lparr> leftPaddle := move_rect_y PADDLE_SPEED (leftPaddle s1) \<rparr> else s1);
          s3 = (if key_UP i then s2\<lparr> rightPaddle := move_rect_y (- PADDLE_SPEED) (rightPaddle s2) \<rparr> else s2);
          s4 = (if key_DOWN i then s3\<lparr> rightPaddle := move_rect_y PADDLE_SPEED (rightPaddle s3) \<rparr> else s3)
      in s4)"

definition clamp_rect_y :: "SDL_Rect \<Rightarrow> SDL_Rect" where
  "clamp_rect_y r =
     (let r1 = (if rect_y r < 0 then r\<lparr> rect_y := 0 \<rparr> else r);
          r2 = (if rect_y r1 + PADDLE_HEIGHT > WINDOW_HEIGHT
                then r1\<lparr> rect_y := WINDOW_HEIGHT - PADDLE_HEIGHT \<rparr> else r1)
      in r2)"

definition clamp_paddles :: "game \<Rightarrow> game" where
  "clamp_paddles s = s\<lparr> leftPaddle := clamp_rect_y (leftPaddle s),
                          rightPaddle := clamp_rect_y (rightPaddle s) \<rparr>"

subsection \<open>Ball movement, walls and paddles\<close>

definition ball_movement :: "game \<Rightarrow> game" where
  "ball_movement s =
     s\<lparr> ball_x := ball_x s + ball_dx s * current_ball_speed s,
        ball_y := ball_y s + ball_dy s * current_ball_speed s,
        reflected_this_frame := False \<rparr>"

definition wall_collisions :: "game \<Rightarrow> game" where
  "wall_collisions s =
     (if ball_y s + real_of_int BALL_RADIUS > real_of_int WINDOW_HEIGHT then
        s\<lparr> ball_y := real_of_int (WINDOW_HEIGHT - BALL_RADIUS),
           ball_dy := - \<bar>ball_dy s\<bar>,
           reflected_this_frame := True \<rparr>
      else if ball_y s - real_of_int BALL_RADIUS < 0 then
        s\<lparr> ball_y := real_of_int BALL_RADIUS,
           ball_dy := \<bar>ball_dy s\<bar>,
           reflected_this_frame := True \<rparr>
      else s)"

definition left_paddle_hit :: "game \<Rightarrow> bool" where
  "left_paddle_hit s \<longleftrightarrow>
     ball_dx s < 0 \<and> checkCircleRectCollision (ball_x s) (ball_y s) BALL_RADIUS (leftPaddle s)"

definition right_paddle_hit :: "game \<Rightarrow> bool" where
  "right_paddle_hit s \<longleftrightarrow>
     ball_dx s > 0 \<and> checkCircleRectCollision (ball_x s) (ball_y s) BALL_RADIUS (rightPaddle s)"

text \<open>Scoring rule 1 for the left player, then for the right player.\<close>

definition left_hit_scoring :: "game \<Rightarrow> game" where
  "left_hit_scoring s =
     (let s1 =
        (if last_ball_hit s = LeftPaddle then
           let s2 = s\<lparr> left_consecutive_hits := left_consecutive_hits s + 1 \<rparr>
           in if left_consecutive_hits s2 \<ge> 2
              then s2\<lparr> left_score := left_score s2 + 1, left_consecutive_hits := 0 \<rparr>
              else s2
         else s\<lparr> left_consecutive_hits := 1, right_consecutive_hits := 0 \<rparr>)
      in s1\<lparr> last_ball_hit := LeftPaddle \<rparr>)"

definition right_hit_scoring :: "game \<Rightarrow> game" where
  "right_hit_scoring s =
     (let s1 =
        (if last_ball_hit s = RightPaddle then
           let s2 = s\<lparr> right_consecutive_hits := right_consecutive_hits s + 1 \<rparr>
           in if right_consecutive_hits s2 \<ge> 2
              then s2\<lparr> right_score := right_score s2 + 1, right_consecutive_hits := 0 \<rparr>
              else s2
         else s\<lparr> right_consecutive_hits := 1, left_consecutive_hits := 0 \<rparr>)
      in s1\<lparr> last_ball_hit := RightPaddle \<rparr>)"

definition paddle_collisions :: "game \<Rightarrow> game" where
  "paddle_collisions s =
     (if left_paddle_hit s then
        left_hit_scoring
          (s\<lparr> ball_x := real_of_int (rect_x (leftPaddle s) + PADDLE_WIDTH + BALL_RADIUS),
              ball_dx := \<bar>ball_dx s\<bar>,
              reflected_this_frame := True \<rparr>)
      else if right_paddle_hit s then
        right_hit_scoring
          (s\<lparr> ball_x := real_of_int (rect_x (rightPaddle s) - BALL_RADIUS),
              ball_dx := - \<bar>ball_dx s\<bar>,
              reflected_this_frame := True \<rparr>)
      else s)"

subsection \<open>Out of bounds: scoring and ball reset\<close>

definition missed_left :: "game \<Rightarrow> bool" where
  "missed_left s \<longleftrightarrow> ball_x s - real_of_int BALL_RADIUS < 0"

definition missed_right :: "game \<Rightarrow> bool" where
  "missed_right s \<longleftrightarrow> \<not> missed_left s \<and> ball_x s + real_of_int BALL_RADIUS > real_of_int WINDOW_WIDTH"

text \<open>The body shared by the two branches after the score has been counted.\<close>

definition reset_ball :: "platform \<Rightarrow> game \<Rightarrow> game option" where
  "reset_ball p s =
     (let s1 = s\<lparr> ball_x := real_of_int WINDOW_WIDTH / 2, ball_y := real_of_int WINDOW_HEIGHT / 2 \<rparr>
      in case random_angle p (rand_state s1) of
           None \<Rightarrow> None
         | Some (angle, g) \<Rightarrow>
             Some ((set_direction angle (s1\<lparr> rand_state := g \<rparr>))
                     \<lparr> current_ball_speed := INITIAL_BALL_SPEED,
                       ball_boost_timer := 0,
                       left_consecutive_hits := 0,
                       right_consecutive_hits := 0,
                       last_ball_hit := NoPaddle \<rparr>))"

definition out_of_bounds :: "platform \<Rightarrow> game \<Rightarrow> game option" where
  "out_of_bounds p s =
     (if ball_x s - real_of_int BALL_RADIUS < 0 then
        reset_ball p (s\<lparr> right_score := right_score s + 1 \<rparr>)
      else if ball_x s + real_of_int BALL_RADIUS > real_of_int WINDOW_WIDTH then
        reset_ball p (s\<lparr> left_score := left_score s + 1 \<rparr>)
      else Some s)"

subsection \<open>Ball speed boost\<close>

definition boost_logic :: "game \<Rightarrow> game" where
  "boost_logic s =
     (let s1 = (if reflected_this_frame s
                then s\<lparr> ball_boost_timer := BALL_BOOST_DURATION_FRAMES,
                        current_ball_speed := INITIAL_BALL_SPEED * BALL_BOOST_FACTOR \<rparr>
                else s)
      in if ball_boost_timer s1 > 0 then
           let s2 = s1\<lparr> ball_boost_timer := ball_boost_timer s1 - 1 \<rparr>
           in if ball_boost_timer s2 = 0 then s2\<lparr> current_ball_speed := INITIAL_BALL_SPEED \<rparr> else s2
         else s1)"

subsection \<open>Coins\<close>

definition spawnCoin :: "platform \<Rightarrow> game \<Rightarrow> game" where
  "spawnCoin p s =
     (let coinEffectiveWidth = getCoinRenderedWidth p COIN_DRAW_SCALE;
          coinEffectiveHeight = getCoinRenderedHeight p COIN_DRAW_SCALE;
          g = rand_state s;
          cx = real_of_int (shd g smod (WINDOW_WIDTH - 2 * PADDLE_WIDTH - coinEffectiveWidth)
                              + PADDLE_WIDTH + coinEffectiveWidth sdiv 2);
          g1 = stl g;
          cy = real_of_int (shd g1 smod (WINDOW_HEIGHT - coinEffectiveHeight)
                              + coinEffectiveHeight sdiv 2)
      in s\<lparr> coins := coins s @ [\<lparr> coin_x = cx, coin_y = cy, coin_timer = COIN_DURATION_FRAMES \<rparr>],
            rand_state := stl g1 \<rparr>)"

definition coin_spawn :: "platform \<Rightarrow> game \<Rightarrow> game" where
  "coin_spawn p s =
     (let s1 = s\<lparr> coin_spawn_timer := coin_spawn_timer s + 1 \<rparr>
      in if coin_spawn_timer s1 \<ge> COIN_APPEAR_INTERVAL_FRAMES
         then (spawnCoin p s1)\<lparr> coin_spawn_timer := 0 \<rparr>
         else s1)"

definition coinRect :: "int \<Rightarrow> int \<Rightarrow> Coin \<Rightarrow> SDL_Rect" where
  "coinRect coinEffectiveWidth coinEffectiveHeight c =
     \<lparr> rect_x = float_to_int (coin_x c - real_of_int (coinEffectiveWidth sdiv 2)),
       rect_y = float_to_int (coin_y c - real_of_int (coinEffectiveHeight sdiv 2)),
       rect_w = coinEffectiveWidth,
       rect_h = coinEffectiveHeight \<rparr>"

text \<open>
  The three collision tests on one coin whose timer has not run out: the result is the
  flag \<^verbatim>\<open>coin_collected\<close> and the state with the score counted.
\<close>

definition collect_coin :: "platform \<Rightarrow> SDL_Rect \<Rightarrow> game \<Rightarrow> bool \<times> game" where
  "collect_coin p r s =
     (let (coin_collected, s1) =
            (if checkCircleRectCollision (ball_x s) (ball_y s) BALL_RADIUS r then
               (True,
                if last_ball_hit s = LeftPaddle then s\<lparr> left_score := left_score s + 1 \<rparr>
                else if last_ball_hit s = RightPaddle then s\<lparr> right_score := right_score s + 1 \<rparr>
                else s)
             else (False, s));
          (coin_collected, s2) =
            (if \<not> coin_collected \<and> checkRectRectCollision p (leftPaddle s1) r
             then (True, s1\<lparr> left_score := left_score s1 + 1 \<rparr>)
             else (coin_collected, s1));
          (coin_collected, s3) =
            (if \<not> coin_collected \<and> checkRectRectCollision p (rightPaddle s2) r
             then (True, s2\<lparr> right_score := right_score s2 + 1 \<rparr>)
             else (coin_collected, s2))
      in (coin_collected, s3))"

text \<open>
  The loop over the vector, erasing while it scans: the coins that stay, in their order,
  and the state with the scores.
\<close>

fun coin_loop :: "platform \<Rightarrow> int \<Rightarrow> int \<Rightarrow> Coin list \<Rightarrow> game \<Rightarrow> Coin list \<times> game" where
  "coin_loop p cw ch [] s = ([], s)"
| "coin_loop p cw ch (c # cs) s =
     (let c1 = c\<lparr> coin_timer := coin_timer c - 1 \<rparr>
      in if coin_timer c1 \<le> 0 then coin_loop p cw ch cs s
         else
           let (coin_collected, s1) = collect_coin p (coinRect cw ch c1) s
           in if coin_collected then coin_loop p cw ch cs s1
              else (let (rest, s2) = coin_loop p cw ch cs s1 in (c1 # rest, s2)))"

definition coin_logic :: "platform \<Rightarrow> game \<Rightarrow> game" where
  "coin_logic p s =
     (let coinEffectiveWidth = getCoinRenderedWidth p COIN_DRAW_SCALE;
          coinEffectiveHeight = getCoinRenderedHeight p COIN_DRAW_SCALE;
          (cs, s1) = coin_loop p coinEffectiveWidth coinEffectiveHeight (coins s) s
      in s1\<lparr> coins := cs \<rparr>)"

subsection \<open>One frame, and the main loop\<close>

definition frame :: "platform \<Rightarrow> frame_input \<Rightarrow> game \<Rightarrow> game option" where
  "frame p i s =
     (case handle_events p (events i) s of
        None \<Rightarrow> None
      | Some s1 \<Rightarrow>
          (case out_of_bounds p
                  (paddle_collisions (wall_collisions (ball_movement
                     (clamp_paddles (paddle_movement i s1))))) of
             None \<Rightarrow> None
           | Some s2 \<Rightarrow> Some (coin_logic p (coin_spawn p (boost_logic s2)))))"

text \<open>\<^verbatim>\<open>while (!quit)\<close> over the inputs of successive frames.\<close>

fun main_loop :: "platform \<Rightarrow> frame_input list \<Rightarrow> game \<Rightarrow> game option" where
  "main_loop p [] s = Some s"
| "main_loop p (i # is) s =
     (if quit s then Some s
      else case frame p i s of None \<Rightarrow> None | Some s' \<Rightarrow> main_loop p is s')"

text \<open>As many frames as there are inputs, whatever \<^verbatim>\<open>quit\<close> says.\<close>

fun run_frames :: "platform \<Rightarrow> frame_input list \<Rightarrow> game \<Rightarrow> game option" where
  "run_frames p [] s = Some s"
| "run_frames p (i # is) s =
     (case frame p i s of None \<Rightarrow> None | Some s' \<Rightarrow> run_frames p is s')"

text \<open>The states at the end of each of these frames, in order.\<close>

fun frame_trace :: "platform \<Rightarrow> frame_input list \<Rightarrow> game \<Rightarrow> game list option" where
  "frame_trace p [] s = Some []"
| "frame_trace p (i # is) s =
     (case frame p i s of
        None \<Rightarrow> None
      | Some s' \<Rightarrow> (case frame_trace p is s' of None \<Rightarrow> None | Some ss \<Rightarrow> Some (s' # ss)))"

subsection \<open>Vocabulary of the properties\<close>

text \<open>The coin size as the frame and \<^verbatim>\<open>spawnCoin\<close> query it.\<close>

abbreviation coinEffectiveWidth :: "platform \<Rightarrow> int" where
  "coinEffectiveWidth p \<equiv> getCoinRenderedWidth p COIN_DRAW_SCALE"

abbreviation coinEffectiveHeight :: "platform \<Rightarrow> int" where
  "coinEffectiveHeight p \<equiv> getCoinRenderedHeight p COIN_DRAW_SCALE"

text \<open>What the consecutive-hit rule reads and writes.\<close>

definition streak_memory :: "game \<Rightarrow> LastHit \<times> int \<times> int \<times> int \<times> int" where
  "streak_memory s = (last_ball_hit s, left_consecutive_hits s, right_consecutive_hits s,
                      left_score s, right_score s)"

definition total_score :: "game \<Rightarrow> int" where
  "total_score s = left_score s + right_score s"

definition ball_on_coin :: "SDL_Rect \<Rightarrow> game \<Rightarrow> bool" where
  "ball_on_coin r s = checkCircleRectCollision (ball_x s) (ball_y s) BALL_RADIUS r"

definition coin_touched :: "platform \<Rightarrow> SDL_Rect \<Rightarrow> game \<Rightarrow> bool" where
  "coin_touched p r s \<longleftrightarrow>
     ball_on_coin r s \<or> SDL_HasIntersection p (leftPaddle s) r
       \<or> SDL_HasIntersection p (rightPaddle s) r"

definition age_coin :: "Coin \<Rightarrow> Coin" where
  "age_coin c = c\<lparr> coin_timer := coin_timer c - 1 \<rparr>"

text \<open>What the coin loop reads and never writes.\<close>

definition same_scene :: "game \<Rightarrow> game \<Rightarrow> bool" where
  "same_scene s t \<longleftrightarrow>
     ball_x t = ball_x s \<and> ball_y t = ball_y s \<and> leftPaddle t = leftPaddle s
       \<and> rightPaddle t = rightPaddle s \<and> last_ball_hit t = last_ball_hit s"

text \<open>The state after the paddle, movement, wall and paddle-collision sections of a frame.\<close>

definition after_paddles :: "frame_input \<Rightarrow> game \<Rightarrow> game" where
  "after_paddles i s =
     paddle_collisions (wall_collisions (ball_movement (clamp_paddles (paddle_movement i s))))"

definition boost_state :: "game \<Rightarrow> real \<times> int" where
  "boost_state s = (current_ball_speed s, ball_boost_timer s)"



text \<open>
  A stream of \<^verbatim>\<open>rand()\<close> values on which the rejection loop always comes to an end:
  from every position on, some value gives an angle that passes the test.
\<close>

definition lucky :: "platform \<Rightarrow> int stream \<Rightarrow> bool" where
  "lucky p g \<longleftrightarrow>
     (\<forall>m. \<exists>n. \<bar>sin (angle_of_rand p (sdrop m g !! n))\<bar> \<ge> 2 / 10
              \<and> \<bar>cos (angle_of_rand p (sdrop m g !! n))\<bar> \<ge> 2 / 10)"



text \<open>
  The rule of the specification for one coin in one pass of the coin section, to compare
  the loop with: whether the coin stays in the list, and the points that it brings to the
  left and to the right player. A coin whose time is up brings nothing; otherwise the ball
  on the coin decides, for the side in \<open>last_ball_hit\<close>; otherwise the left paddle on the
  coin; otherwise the right paddle.
\<close>

definition spec_coin_stays :: "platform \<Rightarrow> int \<Rightarrow> int \<Rightarrow> game \<Rightarrow> Coin \<Rightarrow> bool" where
  "spec_coin_stays p cw ch s c \<longleftrightarrow>
     0 < coin_timer c - 1 \<and> \<not> coin_touched p (coinRect cw ch (age_coin c)) s"

definition spec_coin_points :: "platform \<Rightarrow> int \<Rightarrow> int \<Rightarrow> game \<Rightarrow> Coin \<Rightarrow> int \<times> int" where
  "spec_coin_points p cw ch s c =
     (let r = coinRect cw ch (age_coin c)
      in if coin_timer c - 1 \<le> 0 then (0, 0)
         else if ball_on_coin r s then
           (case last_ball_hit s of
              NoPaddle \<Rightarrow> (0, 0)
            | LeftPaddle \<Rightarrow> (1, 0)
            | RightPaddle \<Rightarrow> (0, 1))
         else if SDL_HasIntersection p (leftPaddle s) r then (1, 0)
         else if SDL_HasIntersection p (rightPaddle s) r then (0, 1)
         else (0, 0))"


subsection \<open>Concrete platforms and states for the examples\<close>

definition demo_platform :: platform where
  "demo_platform =
     \<lparr> RAND_MAX = 32767,
       gCoinTextures = [(32, 32), (32, 32), (32, 32), (32, 32), (32, 32), (32, 32), (32, 32), (32, 32)],
       SDL_HasIntersection = sdl_has_intersection \<rparr>"

definition ball_at :: "real \<Rightarrow> real \<Rightarrow> real \<Rightarrow> real \<Rightarrow> game \<Rightarrow> game" where
  "ball_at bx by dx dy s = s\<lparr> ball_x := bx, ball_y := by, ball_dx := dx, ball_dy := dy \<rparr>"

definition fresh_game :: game where
  "fresh_game = initial_state (sconst 4096)"

text \<open>The ball about to meet the floor, and about to meet the ceiling.\<close>

definition near_floor :: game where
  "near_floor = ball_at 400 583 (3 / 5) (4 / 5) fresh_game"

definition near_ceiling :: game where
  "near_ceiling = ball_at 400 17 (3 / 5) (- (4 / 5)) fresh_game"

text \<open>The ball flying into the left paddle.\<close>

definition into_left_paddle :: "game \<Rightarrow> game" where
  "into_left_paddle s = ball_at 30 300 (- (3 / 5)) (4 / 5) s"

text \<open>Coin boxes: under the ball and the left paddle at once, at either paddle, in the open.\<close>

definition box_at :: "int \<Rightarrow> int \<Rightarrow> SDL_Rect" where
  "box_at bx by = \<lparr> rect_x = bx, rect_y = by, rect_w = 25, rect_h = 25 \<rparr>"

text \<open>A frame without events and keys.\<close>

definition idle_input :: frame_input where
  "idle_input = \<lparr> events = [], key_W = False, key_S = False, key_UP = False, key_DOWN = False \<rparr>"

text \<open>The angle that the stream of \<^const>\<open>fresh_game\<close> yields.\<close>

definition demo_angle :: real where
  "demo_angle = angle_of_rand demo_platform 4096"

text \<open>
  The ball leaving through the left edge far from the paddle: in the middle of the upper
  half, and in the bottom corner where it also meets the floor.
\<close>

definition plain_miss :: game where
  "plain_miss = ball_at 16 100 (- (3 / 5)) (4 / 5) fresh_game"

definition corner_miss :: game where
  "corner_miss = ball_at 16 584 (- (3 / 5)) (4 / 5) fresh_game"

text \<open>Values of \<^verbatim>\<open>rand()\<close> that put the first coin on the centre of the window.\<close>

definition centre_coin_rand :: "int stream" where
  "centre_coin_rand = 368 ## 288 ## sconst 4096"


text \<open>The state at the end of the frame in which the ball of \<^const>\<open>near_floor\<close> bounces.\<close>

definition bounced :: game where
  "bounced = near_floor\<lparr> ball_x := 2012 / 5, ball_y := 585, ball_dy := - (4 / 5),
                          reflected_this_frame := True, current_ball_speed := 24 / 5,
                          ball_boost_timer := 29, coin_spawn_timer := 1 \<rparr>"

text \<open>The state at the end of the frame that starts in \<^const>\<open>corner_miss\<close>.\<close>

definition corner_reset :: game where
  "corner_reset = corner_miss\<lparr> ball_x := 400, ball_y := 300,
                               ball_dx := cos demo_angle, ball_dy := sin demo_angle,
                               right_score := 1, reflected_this_frame := True,
                               current_ball_speed := 24 / 5, ball_boost_timer := 29,
                               coin_spawn_timer := 1 \<rparr>"

text \<open>Values of \<^verbatim>\<open>rand()\<close> that put a coin as far up and left as it can go.\<close>

definition edge_coin_rand :: "int stream" where
  "edge_coin_rand = 0 ## 0 ## sconst 4096"

text \<open>
  Two coins in the coin section of the frame that has spawned the second one, while the
  ball flies to the right through the centre after a hit of the left paddle: the older
  coin under the ball, the new one in the open.
\<close>

definition two_coins :: game where
  "two_coins =
     (ball_at 400 300 (3 / 5) (4 / 5) fresh_game)
       \<lparr> last_ball_hit := LeftPaddle, left_consecutive_hits := 1,
         coins := [\<lparr> coin_x = 402, coin_y = 302, coin_timer = 300 \<rparr>,
                   \<lparr> coin_x = 212, coin_y = 112, coin_timer = 600 \<rparr>] \<rparr>"











section \<open>Properties\<close>

subsection \<open>Constants and conversions\<close>

lemma BALL_RADIUS_15: "BALL_RADIUS = 15"
  by (simp add: game_consts signed_divide_int_def)

lemma float_to_int_of_int [simp]: "float_to_int (real_of_int k) = k"
  by (simp add: float_to_int_def)

lemma float_to_int_add_int: "float_to_int (real_of_int k + real_of_int j) = k + j"
  using float_to_int_of_int [of "k + j"] by (simp del: float_to_int_of_int)

lemma float_to_int_diff_int: "float_to_int (real_of_int k - real_of_int j) = k - j"
  using float_to_int_of_int [of "k - j"] by (simp del: float_to_int_of_int)

lemma ball_at_sel [simp]:
  "ball_x (ball_at bx by dx dy s) = bx"
  "ball_y (ball_at bx by dx dy s) = by"
  "ball_dx (ball_at bx by dx dy s) = dx"
  "ball_dy (ball_at bx by dx dy s) = dy"
  "leftPaddle (ball_at bx by dx dy s) = leftPaddle s"
  "rightPaddle (ball_at bx by dx dy s) = rightPaddle s"
  "last_ball_hit (ball_at bx by dx dy s) = last_ball_hit s"
  "left_consecutive_hits (ball_at bx by dx dy s) = left_consecutive_hits s"
  "right_consecutive_hits (ball_at bx by dx dy s) = right_consecutive_hits s"
  "left_score (ball_at bx by dx dy s) = left_score s"
  "right_score (ball_at bx by dx dy s) = right_score s"
  "current_ball_speed (ball_at bx by dx dy s) = current_ball_speed s"
  by (simp_all add: ball_at_def)

lemma fresh_game_paddles:
  "leftPaddle fresh_game = \<lparr> rect_x = 0, rect_y = 250, rect_w = 20, rect_h = 100 \<rparr>"
  "rightPaddle fresh_game = \<lparr> rect_x = 780, rect_y = 250, rect_w = 20, rect_h = 100 \<rparr>"
  by (simp_all add: fresh_game_def initial_state_def game_consts signed_divide_int_def)

lemma fresh_game_ball:
  "ball_x fresh_game = 400" "ball_y fresh_game = 300"
  "ball_dx fresh_game = 0" "ball_dy fresh_game = 0"
  "current_ball_speed fresh_game = 4"
  by (simp_all add: fresh_game_def initial_state_def game_consts)

lemma fresh_game_memory: "streak_memory fresh_game = (NoPaddle, 0, 0, 0, 0)"
  by (simp add: fresh_game_def initial_state_def streak_memory_def)

subsection \<open>Paddles\<close>

text \<open>A held key moves its paddle by six pixels: the trip through float loses nothing.\<close>

lemma move_rect_y_down: "rect_y (move_rect_y PADDLE_SPEED r) = rect_y r + 6"
  using float_to_int_add_int [of "rect_y r" 6] by (simp add: move_rect_y_def PADDLE_SPEED_def)

lemma move_rect_y_up: "rect_y (move_rect_y (- PADDLE_SPEED) r) = rect_y r - 6"
  using float_to_int_add_int [of "rect_y r" "- 6"] by (simp add: move_rect_y_def PADDLE_SPEED_def)

lemma clamp_rect_y_range:
  "0 \<le> rect_y (clamp_rect_y r) \<and> rect_y (clamp_rect_y r) \<le> WINDOW_HEIGHT - PADDLE_HEIGHT"
  by (simp add: clamp_rect_y_def Let_def game_consts)

text \<open>
  Claim C5. After the paddle section of a frame (movement by the keys, then the two clamps)
  the y coordinate of each paddle lies in \<open>[0, WINDOW_HEIGHT - PADDLE_HEIGHT]\<close>, from any
  state and with any combination of keys held.
\<close>

theorem paddles_stay_in_window:
  "0 \<le> rect_y (leftPaddle (clamp_paddles (paddle_movement i s)))
   \<and> rect_y (leftPaddle (clamp_paddles (paddle_movement i s))) \<le> WINDOW_HEIGHT - PADDLE_HEIGHT
   \<and> 0 \<le> rect_y (rightPaddle (clamp_paddles (paddle_movement i s)))
   \<and> rect_y (rightPaddle (clamp_paddles (paddle_movement i s))) \<le> WINDOW_HEIGHT - PADDLE_HEIGHT"
  by (simp add: clamp_paddles_def clamp_rect_y_range)

subsection \<open>Walls\<close>

text \<open>
  Claim C6. When the position after the movement step is beyond the bottom edge
  (\<open>ball_y + BALL_RADIUS > WINDOW_HEIGHT\<close>), the wall step puts the ball at
  \<open>WINDOW_HEIGHT - BALL_RADIUS\<close>, makes the vertical direction \<open>- |ball_dy|\<close> and sets the
  reflected flag; beyond the top edge it puts the ball at \<open>BALL_RADIUS\<close> and makes the
  direction \<open>|ball_dy|\<close>. When the ball was inside before the movement, so that it crossed
  the edge in this frame, the new vertical direction is strictly away from the wall.
\<close>

theorem wall_collision_clamps_and_reflects:
  "(ball_y (ball_movement s) + real_of_int BALL_RADIUS > real_of_int WINDOW_HEIGHT \<longrightarrow>
      ball_y (wall_collisions (ball_movement s)) = real_of_int (WINDOW_HEIGHT - BALL_RADIUS)
    \<and> ball_dy (wall_collisions (ball_movement s)) = - \<bar>ball_dy s\<bar>
    \<and> (ball_y s + real_of_int BALL_RADIUS \<le> real_of_int WINDOW_HEIGHT
         \<longrightarrow> ball_dy (wall_collisions (ball_movement s)) < 0)
    \<and> reflected_this_frame (wall_collisions (ball_movement s)))
 \<and> (ball_y (ball_movement s) - real_of_int BALL_RADIUS < 0 \<longrightarrow>
      ball_y (wall_collisions (ball_movement s)) = real_of_int BALL_RADIUS
    \<and> ball_dy (wall_collisions (ball_movement s)) = \<bar>ball_dy s\<bar>
    \<and> (ball_y s - real_of_int BALL_RADIUS \<ge> 0
         \<longrightarrow> ball_dy (wall_collisions (ball_movement s)) > 0)
    \<and> reflected_this_frame (wall_collisions (ball_movement s)))"
  by (auto simp add: wall_collisions_def ball_movement_def BALL_RADIUS_15 WINDOW_HEIGHT_def)

lemma near_floor_moved:
  "ball_y (ball_movement near_floor) = 2931 / 5" "ball_y near_floor = 583"
  "ball_dy near_floor = 4 / 5"
  by (simp_all add: near_floor_def ball_movement_def fresh_game_ball)

lemma near_ceiling_moved:
  "ball_y (ball_movement near_ceiling) = 69 / 5" "ball_y near_ceiling = 17"
  "ball_dy near_ceiling = - (4 / 5)"
  by (simp_all add: near_ceiling_def ball_movement_def fresh_game_ball)

theorem wall_collision_clamps_and_reflects_witness:
  "ball_y (ball_movement near_floor) + real_of_int BALL_RADIUS > real_of_int WINDOW_HEIGHT
   \<and> ball_y near_floor + real_of_int BALL_RADIUS \<le> real_of_int WINDOW_HEIGHT
   \<and> ball_y (wall_collisions (ball_movement near_floor)) = 585
   \<and> ball_dy (wall_collisions (ball_movement near_floor)) = - (4 / 5)
   \<and> reflected_this_frame (wall_collisions (ball_movement near_floor))
   \<and> ball_y (ball_movement near_ceiling) - real_of_int BALL_RADIUS < 0
   \<and> ball_y near_ceiling - real_of_int BALL_RADIUS \<ge> 0
   \<and> ball_y (wall_collisions (ball_movement near_ceiling)) = 15
   \<and> ball_dy (wall_collisions (ball_movement near_ceiling)) = 4 / 5
   \<and> reflected_this_frame (wall_collisions (ball_movement near_ceiling))"
  using wall_collision_clamps_and_reflects [of near_floor]
    wall_collision_clamps_and_reflects [of near_ceiling]
  by (simp add: near_floor_moved near_ceiling_moved BALL_RADIUS_15 WINDOW_HEIGHT_def)


subsection \<open>The consecutive-hit rule\<close>







lemma paddle_collisions_none:
  "\<not> left_paddle_hit s \<Longrightarrow> \<not> right_paddle_hit s \<Longrightarrow> paddle_collisions s = s"
  by (simp add: paddle_collisions_def)

lemma paddle_collisions_paddles:
  "leftPaddle (paddle_collisions s) = leftPaddle s"
  "rightPaddle (paddle_collisions s) = rightPaddle s"
  by (simp_all add: paddle_collisions_def left_hit_scoring_def right_hit_scoring_def Let_def)

lemma left_hit_scoring_memory:
  "streak_memory (left_hit_scoring s) =
     (case streak_memory s of (l, a, b, ls, rs) \<Rightarrow>
        if l = LeftPaddle
        then (if a + 1 \<ge> 2 then (LeftPaddle, 0, b, ls + 1, rs) else (LeftPaddle, a + 1, b, ls, rs))
        else (LeftPaddle, 1, 0, ls, rs))"
  by (simp add: left_hit_scoring_def streak_memory_def Let_def)

lemma right_hit_scoring_memory:
  "streak_memory (right_hit_scoring s) =
     (case streak_memory s of (l, a, b, ls, rs) \<Rightarrow>
        if l = RightPaddle
        then (if b + 1 \<ge> 2 then (RightPaddle, a, 0, ls, rs + 1) else (RightPaddle, a, b + 1, ls, rs))
        else (RightPaddle, 0, 1, ls, rs))"
  by (simp add: right_hit_scoring_def streak_memory_def Let_def)

text \<open>The example state keeps what the rule reads.\<close>

lemma streak_memory_ball_at [simp]:
  "streak_memory (ball_at bx by dx dy s) = streak_memory s"
  by (simp add: streak_memory_def)

lemma into_paddle_keeps [simp]:
  "streak_memory (into_left_paddle s) = streak_memory s"
  "leftPaddle (into_left_paddle s) = leftPaddle s"
  "rightPaddle (into_left_paddle s) = rightPaddle s"
  by (simp_all add: into_left_paddle_def)

subsection \<open>Collecting coins\<close>

lemma collect_coin_ball:
  "ball_on_coin r s \<Longrightarrow>
   collect_coin p r s =
     (True, if last_ball_hit s = LeftPaddle then s\<lparr> left_score := left_score s + 1 \<rparr>
            else if last_ball_hit s = RightPaddle then s\<lparr> right_score := right_score s + 1 \<rparr>
            else s)"
  by (simp add: collect_coin_def ball_on_coin_def)

lemma collect_coin_left:
  "\<not> ball_on_coin r s \<Longrightarrow> SDL_HasIntersection p (leftPaddle s) r \<Longrightarrow>
   collect_coin p r s = (True, s\<lparr> left_score := left_score s + 1 \<rparr>)"
  by (simp add: collect_coin_def ball_on_coin_def checkRectRectCollision_def)

lemma collect_coin_right:
  "\<not> ball_on_coin r s \<Longrightarrow> \<not> SDL_HasIntersection p (leftPaddle s) r \<Longrightarrow>
   SDL_HasIntersection p (rightPaddle s) r \<Longrightarrow>
   collect_coin p r s = (True, s\<lparr> right_score := right_score s + 1 \<rparr>)"
  by (simp add: collect_coin_def ball_on_coin_def checkRectRectCollision_def)

lemma collect_coin_none:
  "\<not> coin_touched p r s \<Longrightarrow> collect_coin p r s = (False, s)"
  by (simp add: collect_coin_def ball_on_coin_def checkRectRectCollision_def coin_touched_def)

lemma collect_coin_flag: "fst (collect_coin p r s) = coin_touched p r s"
  by (cases "ball_on_coin r s"; cases "SDL_HasIntersection p (leftPaddle s) r";
      cases "SDL_HasIntersection p (rightPaddle s) r")
     (simp_all add: collect_coin_ball collect_coin_left collect_coin_right collect_coin_none
        coin_touched_def)

lemma collect_coin_scores:
  "total_score (snd (collect_coin p r s)) \<le> total_score s + 1
   \<and> left_score s \<le> left_score (snd (collect_coin p r s))
   \<and> right_score s \<le> right_score (snd (collect_coin p r s))"
  by (cases "ball_on_coin r s"; cases "SDL_HasIntersection p (leftPaddle s) r";
      cases "SDL_HasIntersection p (rightPaddle s) r")
     (simp_all add: collect_coin_ball collect_coin_left collect_coin_right collect_coin_none
        coin_touched_def total_score_def)

lemma collect_coin_scene: "same_scene s (snd (collect_coin p r s))"
  by (cases "ball_on_coin r s"; cases "SDL_HasIntersection p (leftPaddle s) r";
      cases "SDL_HasIntersection p (rightPaddle s) r")
     (simp_all add: collect_coin_ball collect_coin_left collect_coin_right collect_coin_none
        coin_touched_def same_scene_def)

lemma coin_touched_scene: "same_scene s t \<Longrightarrow> coin_touched p r t = coin_touched p r s"
  by (simp add: coin_touched_def same_scene_def ball_on_coin_def)

lemma same_scene_refl: "same_scene s s"
  by (simp add: same_scene_def)

lemma same_scene_trans: "same_scene s t \<Longrightarrow> same_scene t u \<Longrightarrow> same_scene s u"
  by (simp add: same_scene_def)

text \<open>One coin in the loop: expired, collected, or kept one frame older.\<close>

lemma coin_loop_single:
  "coin_loop p cw ch [c] s =
     (if coin_timer c - 1 \<le> 0 then ([], s)
      else if coin_touched p (coinRect cw ch (age_coin c)) s
           then ([], snd (collect_coin p (coinRect cw ch (age_coin c)) s))
           else ([age_coin c], s))"
  using collect_coin_flag [of p "coinRect cw ch (age_coin c)" s]
  by (auto simp add: Let_def age_coin_def split: prod.splits simp: collect_coin_none)

text \<open>The loop handles the first coin, then the others from the state it left.\<close>

lemma coin_loop_Cons:
  "coin_loop p cw ch (c # cs) s =
     (fst (coin_loop p cw ch [c] s)
        @ fst (coin_loop p cw ch cs (snd (coin_loop p cw ch [c] s))),
      snd (coin_loop p cw ch cs (snd (coin_loop p cw ch [c] s))))"
  by (simp add: Let_def split: prod.splits)

lemma coin_loop_scene: "same_scene s (snd (coin_loop p cw ch cs s))"
proof (induction cs arbitrary: s)
  case Nil
  show ?case by (simp add: same_scene_refl)
next
  case (Cons c cs)
  have one: "same_scene s (snd (coin_loop p cw ch [c] s))"
    using collect_coin_scene [of s p "coinRect cw ch (age_coin c)"]
    by (simp add: coin_loop_single same_scene_refl del: coin_loop.simps)
  show ?case
    using same_scene_trans [OF one Cons.IH [of "snd (coin_loop p cw ch [c] s)"]]
    by (subst coin_loop_Cons) (simp del: coin_loop.simps)
qed

lemma coin_loop_total:
  "total_score (snd (coin_loop p cw ch cs s)) \<le> total_score s + int (length cs)"
proof (induction cs arbitrary: s)
  case Nil
  show ?case by simp
next
  case (Cons c cs)
  have one: "total_score (snd (coin_loop p cw ch [c] s)) \<le> total_score s + 1"
    using collect_coin_scores [of p "coinRect cw ch (age_coin c)" s]
    by (simp add: coin_loop_single del: coin_loop.simps)
  show ?case
    using one Cons.IH [of "snd (coin_loop p cw ch [c] s)"]
    by (subst coin_loop_Cons) (simp del: coin_loop.simps)
qed

lemma coin_loop_survivors:
  "fst (coin_loop p cw ch cs s) =
     map age_coin (filter (\<lambda>c. \<not> coin_timer c - 1 \<le> 0
                              \<and> \<not> coin_touched p (coinRect cw ch (age_coin c)) s) cs)"
proof (induction cs arbitrary: s)
  case Nil
  show ?case by simp
next
  case (Cons c cs)
  let ?s1 = "snd (coin_loop p cw ch [c] s)"
  have scene: "same_scene s ?s1" by (rule coin_loop_scene)
  have rest: "fst (coin_loop p cw ch cs ?s1) =
     map age_coin (filter (\<lambda>c. \<not> coin_timer c - 1 \<le> 0
                              \<and> \<not> coin_touched p (coinRect cw ch (age_coin c)) s) cs)"
    using Cons.IH [of ?s1] by (simp add: coin_touched_scene [OF scene] del: coin_loop.simps)
  have one: "fst (coin_loop p cw ch [c] s) =
     map age_coin (filter (\<lambda>c. \<not> coin_timer c - 1 \<le> 0
                              \<and> \<not> coin_touched p (coinRect cw ch (age_coin c)) s) [c])"
    by (simp add: coin_loop_single del: coin_loop.simps)
  show ?case
    by (subst coin_loop_Cons)
       (simp only: fst_conv rest one filter_append [symmetric] map_append [symmetric]
          append_Cons append_Nil)
qed

lemma demo_platform_sel:
  "SDL_HasIntersection demo_platform = sdl_has_intersection"
  "RAND_MAX demo_platform = 32767"
  by (simp_all add: demo_platform_def)

lemma demo_boxes:
  "ball_on_coin (box_at 10 290) (into_left_paddle fresh_game)"
  "sdl_has_intersection (leftPaddle (into_left_paddle fresh_game)) (box_at 10 290)"
  "\<not> ball_on_coin (box_at 10 290) fresh_game"
  "sdl_has_intersection (leftPaddle fresh_game) (box_at 10 290)"
  "\<not> ball_on_coin (box_at 770 290) fresh_game"
  "\<not> sdl_has_intersection (leftPaddle fresh_game) (box_at 770 290)"
  "sdl_has_intersection (rightPaddle fresh_game) (box_at 770 290)"
  "\<not> ball_on_coin (box_at 200 100) fresh_game"
  "\<not> sdl_has_intersection (leftPaddle fresh_game) (box_at 200 100)"
  "\<not> sdl_has_intersection (rightPaddle fresh_game) (box_at 200 100)"
  by (simp_all add: ball_on_coin_def box_at_def checkCircleRectCollision_def BALL_RADIUS_15
      fresh_game_paddles fresh_game_ball sdl_has_intersection_def into_left_paddle_def)

subsection \<open>The lifetime of a coin\<close>


lemma coin_logic_coins:
  "coins (coin_logic p s) =
     map age_coin
       (filter (\<lambda>c. \<not> coin_timer c - 1 \<le> 0
                  \<and> \<not> coin_touched p (coinRect (getCoinRenderedWidth p COIN_DRAW_SCALE)
                                          (getCoinRenderedHeight p COIN_DRAW_SCALE) (age_coin c)) s)
          (coins s))"
  using coin_loop_survivors [of p "getCoinRenderedWidth p COIN_DRAW_SCALE"
      "getCoinRenderedHeight p COIN_DRAW_SCALE" "coins s" s]
  by (simp add: coin_logic_def Let_def case_prod_beta)




subsection \<open>The randomized launch direction\<close>

text \<open>The loop returns only an angle that passes its test, with what is left of the stream.\<close>

lemma random_angle_result:
  assumes "random_angle p g = Some y"
  shows "\<exists>n. fst y = angle_of_rand p (g !! n) \<and> snd y = sdrop (Suc n) g
           \<and> \<not> (\<bar>sin (fst y)\<bar> < 2 / 10 \<or> \<bar>cos (fst y)\<bar> < 2 / 10)"
proof (rule random_angle.raw_induct
    [where P = "\<lambda>p g y. \<exists>n. fst y = angle_of_rand p (g !! n) \<and> snd y = sdrop (Suc n) g
                   \<and> \<not> (\<bar>sin (fst y)\<bar> < 2 / 10 \<or> \<bar>cos (fst y)\<bar> < 2 / 10)",
     rotated, OF assms])
  fix loop :: "platform \<Rightarrow> int stream \<Rightarrow> (real \<times> int stream) option" and p g y
  assume IH: "\<And>p g y. loop p g = Some y \<Longrightarrow>
      \<exists>n. fst y = angle_of_rand p (g !! n) \<and> snd y = sdrop (Suc n) g
          \<and> \<not> (\<bar>sin (fst y)\<bar> < 2 / 10 \<or> \<bar>cos (fst y)\<bar> < 2 / 10)"
    and step: "(let angle = angle_of_rand p (shd g) in
                if \<bar>sin angle\<bar> < 2 / 10 \<or> \<bar>cos angle\<bar> < 2 / 10 then loop p (stl g)
                else Some (angle, stl g)) = Some y"
  show "\<exists>n. fst y = angle_of_rand p (g !! n) \<and> snd y = sdrop (Suc n) g
          \<and> \<not> (\<bar>sin (fst y)\<bar> < 2 / 10 \<or> \<bar>cos (fst y)\<bar> < 2 / 10)"
  proof (cases "\<bar>sin (angle_of_rand p (shd g))\<bar> < 2 / 10 \<or> \<bar>cos (angle_of_rand p (shd g))\<bar> < 2 / 10")
    case True
    with step have "loop p (stl g) = Some y"
      by (simp add: Let_def)
    from IH [OF this] obtain n where n: "fst y = angle_of_rand p (stl g !! n)"
      "snd y = sdrop (Suc n) (stl g)"
      "\<not> (\<bar>sin (fst y)\<bar> < 2 / 10 \<or> \<bar>cos (fst y)\<bar> < 2 / 10)"
      by blast
    show ?thesis
      using n by (intro exI [of _ "Suc n"]) simp
  next
    case False
    with step have "y = (angle_of_rand p (shd g), stl g)"
      by (simp add: Let_def)
    with False show ?thesis
      by (intro exI [of _ 0]) simp
  qed
qed

lemma random_angle_accepted:
  "random_angle p g = Some (a, g') \<Longrightarrow> \<bar>sin a\<bar> \<ge> 2 / 10 \<and> \<bar>cos a\<bar> \<ge> 2 / 10"
  using random_angle_result [of p g "(a, g')"] by auto

text \<open>It returns as soon as the stream holds a value whose angle passes the test.\<close>

lemma random_angle_returns:
  "\<not> (\<bar>sin (angle_of_rand p (g !! n))\<bar> < 2 / 10 \<or> \<bar>cos (angle_of_rand p (g !! n))\<bar> < 2 / 10)
   \<Longrightarrow> random_angle p g \<noteq> None"
proof (induction n arbitrary: g)
  case 0
  then show ?case
    by (subst random_angle.simps) (simp add: Let_def)
next
  case (Suc n)
  from Suc.prems have "random_angle p (stl g) \<noteq> None"
    by (intro Suc.IH) simp
  then show ?case
    by (subst random_angle.simps) (simp add: Let_def)
qed

text \<open>The vector \<open>(cos angle, sin angle)\<close> has magnitude 1, so the division changes nothing.\<close>

lemma set_direction_unit:
  "set_direction angle s = s\<lparr> ball_dx := cos angle, ball_dy := sin angle \<rparr>"
proof -
  have "cos angle * cos angle + sin angle * sin angle = 1"
    using sin_cos_squared_add2 [of angle] by (simp add: power2_eq_square)
  then show ?thesis
    by (simp add: set_direction_def Let_def)
qed


lemma demo_angle_range: "pi / 6 \<le> demo_angle \<and> demo_angle \<le> pi / 3"
proof -
  have angle: "demo_angle = (8192 / 32767) * pi"
    by (simp add: demo_angle_def angle_of_rand_def demo_platform_def)
  have "(1 / 6) * pi \<le> (8192 / 32767) * pi"
    by (rule mult_right_mono) simp_all
  moreover have "(8192 / 32767) * pi \<le> (1 / 3) * pi"
    by (rule mult_right_mono) simp_all
  ultimately show ?thesis
    by (simp only: angle) simp
qed

lemma demo_angle_accepted: "\<bar>sin demo_angle\<bar> \<ge> 2 / 10 \<and> \<bar>cos demo_angle\<bar> \<ge> 2 / 10"
proof -
  have "sin (pi / 6) \<le> sin demo_angle"
    using demo_angle_range pi_gt_zero by (intro sin_monotone_2pi_le) simp_all
  moreover have "cos (pi / 3) \<le> cos demo_angle"
    using demo_angle_range pi_gt_zero by (intro cos_monotone_0_pi_le) simp_all
  ultimately show ?thesis
    by (simp add: sin_30 cos_60)
qed

lemma random_angle_demo:
  "random_angle demo_platform (sconst 4096) = Some (demo_angle, sconst 4096)"
  using demo_angle_accepted
  by (subst random_angle.simps) (simp add: Let_def demo_angle_def)

lemma out_of_bounds_direction:
  assumes "out_of_bounds p s = Some s'" and "missed_left s \<or> missed_right s"
  shows "\<exists>angle. ball_dx s' = cos angle \<and> ball_dy s' = sin angle
           \<and> \<bar>sin angle\<bar> \<ge> 2 / 10 \<and> \<bar>cos angle\<bar> \<ge> 2 / 10"
proof -
  from assms obtain angle g where draw: "random_angle p (rand_state s) = Some (angle, g)"
    and s': "ball_dx s' = cos angle" "ball_dy s' = sin angle"
    by (auto simp add: out_of_bounds_def reset_ball_def missed_left_def missed_right_def
        Let_def set_direction_unit split: option.splits if_splits)
  from random_angle_accepted [OF draw] s' show ?thesis
    by blast
qed

text \<open>
  Claim C7. The launch assigns a direction only when the velocity is exactly zero and the
  pointer is within the ball's radius of its centre, and otherwise leaves the state alone;
  the out-of-bounds section assigns one exactly when the ball is past the left or the right
  edge. The assigned direction is \<open>(cos angle, sin angle)\<close> for an angle with
  \<open>|sin angle| \<ge> 0.2\<close> and \<open>|cos angle| \<ge> 0.2\<close>, hence of length 1. Both steps return
  as soon as one of the values that \<^verbatim>\<open>rand()\<close> is going to return gives such an angle.
\<close>

theorem launch_direction_avoids_axes:
  "(mouse_button_down p mouseX mouseY s = Some s' \<longrightarrow>
      (if ball_dx s = 0 \<and> ball_dy s = 0
          \<and> sqrt ((real_of_int mouseX - ball_x s)\<^sup>2 + (real_of_int mouseY - ball_y s)\<^sup>2)
              \<le> real_of_int BALL_RADIUS
       then (\<exists>angle. ball_dx s' = cos angle \<and> ball_dy s' = sin angle
                \<and> \<bar>sin angle\<bar> \<ge> 2 / 10 \<and> \<bar>cos angle\<bar> \<ge> 2 / 10)
            \<and> (ball_dx s')\<^sup>2 + (ball_dy s')\<^sup>2 = 1
       else s' = s))
 \<and> (out_of_bounds p s = Some s' \<longrightarrow>
      (if missed_left s \<or> missed_right s
       then (\<exists>angle. ball_dx s' = cos angle \<and> ball_dy s' = sin angle
                \<and> \<bar>sin angle\<bar> \<ge> 2 / 10 \<and> \<bar>cos angle\<bar> \<ge> 2 / 10)
            \<and> (ball_dx s')\<^sup>2 + (ball_dy s')\<^sup>2 = 1
       else s' = s))
 \<and> ((\<exists>n. \<not> (\<bar>sin (angle_of_rand p (rand_state s !! n))\<bar> < 2 / 10
            \<or> \<bar>cos (angle_of_rand p (rand_state s !! n))\<bar> < 2 / 10)) \<longrightarrow>
      mouse_button_down p mouseX mouseY s \<noteq> None \<and> out_of_bounds p s \<noteq> None)"
proof (intro conjI impI)
  assume run: "mouse_button_down p mouseX mouseY s = Some s'"
  show "if ball_dx s = 0 \<and> ball_dy s = 0
          \<and> sqrt ((real_of_int mouseX - ball_x s)\<^sup>2 + (real_of_int mouseY - ball_y s)\<^sup>2)
              \<le> real_of_int BALL_RADIUS
       then (\<exists>angle. ball_dx s' = cos angle \<and> ball_dy s' = sin angle
                \<and> \<bar>sin angle\<bar> \<ge> 2 / 10 \<and> \<bar>cos angle\<bar> \<ge> 2 / 10)
            \<and> (ball_dx s')\<^sup>2 + (ball_dy s')\<^sup>2 = 1
       else s' = s"
  proof (cases "ball_dx s = 0 \<and> ball_dy s = 0
          \<and> sqrt ((real_of_int mouseX - ball_x s)\<^sup>2 + (real_of_int mouseY - ball_y s)\<^sup>2)
              \<le> real_of_int BALL_RADIUS")
    case True
    with run obtain angle g where draw: "random_angle p (rand_state s) = Some (angle, g)"
      and s': "ball_dx s' = cos angle" "ball_dy s' = sin angle"
      by (auto simp add: mouse_button_down_def Let_def set_direction_unit split: option.splits)
    from random_angle_accepted [OF draw] s' True show ?thesis
      by (auto simp add: sin_cos_squared_add2)
  next
    case False
    with run show ?thesis
      by (auto simp add: mouse_button_down_def Let_def split: if_splits)
  qed
next
  assume run: "out_of_bounds p s = Some s'"
  show "if missed_left s \<or> missed_right s
       then (\<exists>angle. ball_dx s' = cos angle \<and> ball_dy s' = sin angle
                \<and> \<bar>sin angle\<bar> \<ge> 2 / 10 \<and> \<bar>cos angle\<bar> \<ge> 2 / 10)
            \<and> (ball_dx s')\<^sup>2 + (ball_dy s')\<^sup>2 = 1
       else s' = s"
  proof (cases "missed_left s \<or> missed_right s")
    case True
    with run obtain angle g where draw: "random_angle p (rand_state s) = Some (angle, g)"
      and s': "ball_dx s' = cos angle" "ball_dy s' = sin angle"
      by (auto simp add: out_of_bounds_def reset_ball_def missed_left_def missed_right_def
          Let_def set_direction_unit split: option.splits if_splits)
    from random_angle_accepted [OF draw] s' True show ?thesis
      by (auto simp add: sin_cos_squared_add2)
  next
    case False
    with run show ?thesis
      by (auto simp add: out_of_bounds_def missed_left_def missed_right_def split: if_splits)
  qed
next
  assume "\<exists>n. \<not> (\<bar>sin (angle_of_rand p (rand_state s !! n))\<bar> < 2 / 10
            \<or> \<bar>cos (angle_of_rand p (rand_state s !! n))\<bar> < 2 / 10)"
  then obtain n where "\<not> (\<bar>sin (angle_of_rand p (rand_state s !! n))\<bar> < 2 / 10
            \<or> \<bar>cos (angle_of_rand p (rand_state s !! n))\<bar> < 2 / 10)"
    by blast
  then have draw: "random_angle p (rand_state s) \<noteq> None"
    by (rule random_angle_returns)
  from draw show "mouse_button_down p mouseX mouseY s \<noteq> None"
    by (auto simp add: mouse_button_down_def Let_def split: option.splits)
  from draw show "out_of_bounds p s \<noteq> None"
    by (auto simp add: out_of_bounds_def reset_ball_def Let_def split: option.splits)
qed

lemma fresh_game_rand: "rand_state fresh_game = sconst 4096"
  by (simp add: fresh_game_def initial_state_def)

lemma plain_miss_moved:
  "ball_x (ball_movement plain_miss) = 68 / 5"
  "rand_state (ball_movement plain_miss) = sconst 4096"
  by (simp_all add: plain_miss_def ball_at_def ball_movement_def fresh_game_rand fresh_game_ball)

theorem launch_direction_avoids_axes_witness:
  "ball_dx fresh_game = 0 \<and> ball_dy fresh_game = 0
   \<and> sqrt ((real_of_int 400 - ball_x fresh_game)\<^sup>2 + (real_of_int 300 - ball_y fresh_game)\<^sup>2)
       \<le> real_of_int BALL_RADIUS
   \<and> mouse_button_down demo_platform 400 300 fresh_game
       = Some (fresh_game\<lparr> ball_dx := cos demo_angle, ball_dy := sin demo_angle \<rparr>)
   \<and> (cos demo_angle)\<^sup>2 + (sin demo_angle)\<^sup>2 = 1
   \<and> missed_left (ball_movement plain_miss)
   \<and> out_of_bounds demo_platform (ball_movement plain_miss) \<noteq> None
   \<and> (ball_dx (the (out_of_bounds demo_platform (ball_movement plain_miss))))\<^sup>2
       + (ball_dy (the (out_of_bounds demo_platform (ball_movement plain_miss))))\<^sup>2 = 1"
proof -
  let ?m = "ball_movement plain_miss"
  have click: "mouse_button_down demo_platform 400 300 fresh_game
       = Some (fresh_game\<lparr> ball_dx := cos demo_angle, ball_dy := sin demo_angle \<rparr>)"
    by (simp add: mouse_button_down_def fresh_game_ball fresh_game_rand random_angle_demo
        set_direction_unit BALL_RADIUS_15)
       (simp add: fresh_game_def initial_state_def)
  have good: "\<exists>n. \<not> (\<bar>sin (angle_of_rand demo_platform (rand_state ?m !! n))\<bar> < 2 / 10
            \<or> \<bar>cos (angle_of_rand demo_platform (rand_state ?m !! n))\<bar> < 2 / 10)"
    using demo_angle_accepted
    by (intro exI [of _ 0]) (simp add: plain_miss_moved demo_angle_def)
  have miss: "missed_left ?m"
    by (simp add: missed_left_def plain_miss_moved BALL_RADIUS_15)
  have some: "out_of_bounds demo_platform ?m \<noteq> None"
    using launch_direction_avoids_axes [of demo_platform 400 300 ?m ?m,
        THEN conjunct2, THEN conjunct2, THEN mp, OF good]
    by (rule conjunct2)
  then obtain s' where s': "out_of_bounds demo_platform ?m = Some s'"
    by blast
  have unit: "(ball_dx s')\<^sup>2 + (ball_dy s')\<^sup>2 = 1"
    using launch_direction_avoids_axes [of demo_platform 400 300 ?m s'] miss s'
    by simp
  have centre: "ball_dx fresh_game = 0 \<and> ball_dy fresh_game = 0
   \<and> sqrt ((real_of_int 400 - ball_x fresh_game)\<^sup>2 + (real_of_int 300 - ball_y fresh_game)\<^sup>2)
       \<le> real_of_int BALL_RADIUS"
    by (simp add: fresh_game_ball BALL_RADIUS_15)
  have "(cos demo_angle)\<^sup>2 + (sin demo_angle)\<^sup>2 = 1"
    using launch_direction_avoids_axes [of demo_platform 400 300 fresh_game
        "fresh_game\<lparr> ball_dx := cos demo_angle, ball_dy := sin demo_angle \<rparr>"] click centre
    by simp
  with centre click miss some unit s' show ?thesis
    by simp
qed

subsection \<open>What the sections of a frame leave alone\<close>

lemma frame_Some:
  "frame p i s = Some s' \<Longrightarrow>
   \<exists>s1 s2. handle_events p (events i) s = Some s1
          \<and> out_of_bounds p (after_paddles i s1) = Some s2
          \<and> s' = coin_logic p (coin_spawn p (boost_logic s2))"
  by (auto simp add: frame_def after_paddles_def split: option.splits)

lemma frame_no_events:
  "events i = [] \<Longrightarrow>
   frame p i s =
     (case out_of_bounds p (after_paddles i s) of
        None \<Rightarrow> None
      | Some s2 \<Rightarrow> Some (coin_logic p (coin_spawn p (boost_logic s2))))"
  by (simp add: frame_def after_paddles_def)

text \<open>The coin loop writes nothing but the two scores.\<close>

lemma collect_coin_writes:
  "snd (collect_coin p r s)
     = s\<lparr> left_score := left_score (snd (collect_coin p r s)),
           right_score := right_score (snd (collect_coin p r s)) \<rparr>"
  by (cases "ball_on_coin r s"; cases "SDL_HasIntersection p (leftPaddle s) r";
      cases "SDL_HasIntersection p (rightPaddle s) r")
     (simp_all add: collect_coin_ball collect_coin_left collect_coin_right collect_coin_none
        coin_touched_def)

lemma coin_loop_writes:
  "snd (coin_loop p cw ch cs s)
     = s\<lparr> left_score := left_score (snd (coin_loop p cw ch cs s)),
           right_score := right_score (snd (coin_loop p cw ch cs s)) \<rparr>"
proof (induction cs arbitrary: s)
  case Nil
  show ?case by simp
next
  case (Cons c cs)
  let ?s1 = "snd (coin_loop p cw ch [c] s)"
  have one: "?s1 = s\<lparr> left_score := left_score ?s1, right_score := right_score ?s1 \<rparr>"
    using collect_coin_writes [of p "coinRect cw ch (age_coin c)" s]
    by (simp add: coin_loop_single del: coin_loop.simps)
  have all: "snd (coin_loop p cw ch (c # cs) s) = snd (coin_loop p cw ch cs ?s1)"
    by (subst coin_loop_Cons) simp
  show ?case
    unfolding all
    by (subst Cons.IH [of ?s1], subst one) simp
qed

lemma coin_logic_writes:
  "coin_logic p s
     = s\<lparr> left_score := left_score (coin_logic p s),
           right_score := right_score (coin_logic p s),
           coins := coins (coin_logic p s) \<rparr>"
proof -
  let ?l = "coin_loop p (getCoinRenderedWidth p COIN_DRAW_SCALE)
              (getCoinRenderedHeight p COIN_DRAW_SCALE) (coins s) s"
  have "coin_logic p s = (snd ?l)\<lparr> coins := fst ?l \<rparr>"
    by (simp add: coin_logic_def Let_def case_prod_beta)
  then show ?thesis
    by (subst (1 2 3 4) \<open>coin_logic p s = (snd ?l)\<lparr> coins := fst ?l \<rparr>\<close>,
        subst (1 2 3) coin_loop_writes) simp
qed

lemma coin_section_keeps:
  "boost_state (coin_logic p (coin_spawn p s)) = boost_state s"
  "reflected_this_frame (coin_logic p (coin_spawn p s)) = reflected_this_frame s"
  "streak_memory (coin_logic p (coin_spawn p s))
     = (last_ball_hit s, left_consecutive_hits s, right_consecutive_hits s,
        left_score (coin_logic p (coin_spawn p s)), right_score (coin_logic p (coin_spawn p s)))"
  "ball_x (coin_logic p (coin_spawn p s)) = ball_x s"
  "ball_y (coin_logic p (coin_spawn p s)) = ball_y s"
  "ball_dx (coin_logic p (coin_spawn p s)) = ball_dx s"
  "ball_dy (coin_logic p (coin_spawn p s)) = ball_dy s"
  "leftPaddle (coin_logic p (coin_spawn p s)) = leftPaddle s"
  "rightPaddle (coin_logic p (coin_spawn p s)) = rightPaddle s"
  by (subst coin_logic_writes,
      simp add: boost_state_def streak_memory_def coin_spawn_def spawnCoin_def Let_def)+

lemma boost_logic_keeps:
  "reflected_this_frame (boost_logic s) = reflected_this_frame s"
  "coins (boost_logic s) = coins s"
  "coin_spawn_timer (boost_logic s) = coin_spawn_timer s"
  "streak_memory (boost_logic s) = streak_memory s"
  "ball_x (boost_logic s) = ball_x s"
  "ball_y (boost_logic s) = ball_y s"
  "ball_dx (boost_logic s) = ball_dx s"
  "ball_dy (boost_logic s) = ball_dy s"
  "leftPaddle (boost_logic s) = leftPaddle s"
  "rightPaddle (boost_logic s) = rightPaddle s"
  "rand_state (boost_logic s) = rand_state s"
  by (simp_all add: boost_logic_def Let_def streak_memory_def)

text \<open>The boost section, as a function of the flag, the speed and the timer.\<close>

lemma boost_logic_state:
  "boost_state (boost_logic s) =
     (if reflected_this_frame s
      then (INITIAL_BALL_SPEED * BALL_BOOST_FACTOR, BALL_BOOST_DURATION_FRAMES - 1)
      else if ball_boost_timer s > 0
           then (if ball_boost_timer s - 1 = 0 then INITIAL_BALL_SPEED else current_ball_speed s,
                 ball_boost_timer s - 1)
           else boost_state s)"
  by (simp add: boost_logic_def boost_state_def Let_def BALL_BOOST_DURATION_FRAMES_def)

lemma out_of_bounds_keeps:
  assumes "out_of_bounds p s = Some s'"
  shows "reflected_this_frame s' = reflected_this_frame s"
    and "coins s' = coins s"
    and "coin_spawn_timer s' = coin_spawn_timer s"
    and "leftPaddle s' = leftPaddle s"
    and "rightPaddle s' = rightPaddle s"
    and "boost_state s' = boost_state s \<or> boost_state s' = (INITIAL_BALL_SPEED, 0)"
  using assms
  by (auto simp add: out_of_bounds_def reset_ball_def Let_def set_direction_unit boost_state_def
      split: if_splits option.splits)

lemma paddle_movement_keeps:
  "boost_state (paddle_movement i s) = boost_state s"
  "coins (paddle_movement i s) = coins s"
  "coin_spawn_timer (paddle_movement i s) = coin_spawn_timer s"
  "rand_state (paddle_movement i s) = rand_state s"
  "streak_memory (paddle_movement i s) = streak_memory s"
  by (simp_all add: paddle_movement_def Let_def boost_state_def streak_memory_def)

lemma clamp_paddles_keeps:
  "boost_state (clamp_paddles s) = boost_state s"
  "coins (clamp_paddles s) = coins s"
  "coin_spawn_timer (clamp_paddles s) = coin_spawn_timer s"
  "rand_state (clamp_paddles s) = rand_state s"
  "streak_memory (clamp_paddles s) = streak_memory s"
  by (simp_all add: clamp_paddles_def boost_state_def streak_memory_def)

lemma ball_movement_keeps:
  "boost_state (ball_movement s) = boost_state s"
  "coins (ball_movement s) = coins s"
  "coin_spawn_timer (ball_movement s) = coin_spawn_timer s"
  "rand_state (ball_movement s) = rand_state s"
  "streak_memory (ball_movement s) = streak_memory s"
  by (simp_all add: ball_movement_def boost_state_def streak_memory_def)

lemma wall_collisions_keeps:
  "boost_state (wall_collisions s) = boost_state s"
  "coins (wall_collisions s) = coins s"
  "coin_spawn_timer (wall_collisions s) = coin_spawn_timer s"
  "rand_state (wall_collisions s) = rand_state s"
  "streak_memory (wall_collisions s) = streak_memory s"
  by (simp_all add: wall_collisions_def boost_state_def streak_memory_def)

lemma paddle_collisions_keeps:
  "boost_state (paddle_collisions s) = boost_state s"
  "coins (paddle_collisions s) = coins s"
  "coin_spawn_timer (paddle_collisions s) = coin_spawn_timer s"
  "rand_state (paddle_collisions s) = rand_state s"
  by (simp_all add: paddle_collisions_def left_hit_scoring_def right_hit_scoring_def Let_def
      boost_state_def)

lemma after_paddles_keeps:
  "boost_state (after_paddles i s) = boost_state s"
  "coins (after_paddles i s) = coins s"
  "coin_spawn_timer (after_paddles i s) = coin_spawn_timer s"
  "rand_state (after_paddles i s) = rand_state s"
  by (simp_all only: after_paddles_def paddle_collisions_keeps wall_collisions_keeps
      ball_movement_keeps clamp_paddles_keeps paddle_movement_keeps)

lemma mouse_button_down_keeps:
  assumes "mouse_button_down p mouseX mouseY s = Some s'"
  shows "coins s' = coins s"
    and "coin_spawn_timer s' = coin_spawn_timer s"
    and "streak_memory s' = streak_memory s"
    and "boost_state s' = boost_state s \<or> boost_state s' = (INITIAL_BALL_SPEED, 0)"
  using assms
  by (auto simp add: mouse_button_down_def Let_def set_direction_unit boost_state_def
      streak_memory_def split: if_splits option.splits)

lemma handle_event_keeps:
  assumes "handle_event p e s = Some s'"
  shows "coins s' = coins s"
    and "coin_spawn_timer s' = coin_spawn_timer s"
    and "streak_memory s' = streak_memory s"
    and "boost_state s' = boost_state s \<or> boost_state s' = (INITIAL_BALL_SPEED, 0)"
proof -
  have "coins s' = coins s \<and> coin_spawn_timer s' = coin_spawn_timer s
      \<and> streak_memory s' = streak_memory s
      \<and> (boost_state s' = boost_state s \<or> boost_state s' = (INITIAL_BALL_SPEED, 0))"
  proof (cases e)
    case SDL_QUIT
    with assms show ?thesis
      by (auto simp add: boost_state_def streak_memory_def)
  next
    case (SDL_MOUSEBUTTONDOWN mouseX mouseY)
    with assms have "mouse_button_down p mouseX mouseY s = Some s'"
      by simp
    from mouse_button_down_keeps [OF this] show ?thesis
      by simp
  next
    case SDL_OTHER
    with assms show ?thesis
      by simp
  qed
  then show "coins s' = coins s"
    and "coin_spawn_timer s' = coin_spawn_timer s"
    and "streak_memory s' = streak_memory s"
    and "boost_state s' = boost_state s \<or> boost_state s' = (INITIAL_BALL_SPEED, 0)"
    by simp_all
qed

lemma handle_events_keeps:
  "handle_events p es s = Some s' \<Longrightarrow>
   coins s' = coins s \<and> coin_spawn_timer s' = coin_spawn_timer s
     \<and> streak_memory s' = streak_memory s
     \<and> (boost_state s' = boost_state s \<or> boost_state s' = (INITIAL_BALL_SPEED, 0))"
proof (induction es arbitrary: s)
  case Nil
  then show ?case by simp
next
  case (Cons e es)
  then obtain s1 where s1: "handle_event p e s = Some s1" "handle_events p es s1 = Some s'"
    by (auto split: option.splits)
  from handle_event_keeps [OF s1(1)] Cons.IH [OF s1(2)] show ?case
    by auto
qed

text \<open>
  A frame as the boost logic sees it: the speed and the timer reach the boost section as
  they were, or reset to the base speed and 0 by a launch or a miss.
\<close>

lemma frame_boost_state:
  assumes "frame p i s = Some s'"
  shows "\<exists>s2. (boost_state s2 = boost_state s \<or> boost_state s2 = (INITIAL_BALL_SPEED, 0))
            \<and> reflected_this_frame s2 = reflected_this_frame s'
            \<and> boost_state s' = boost_state (boost_logic s2)"
proof -
  from frame_Some [OF assms] obtain s1 s2 where
    ev: "handle_events p (events i) s = Some s1"
    and ob: "out_of_bounds p (after_paddles i s1) = Some s2"
    and s': "s' = coin_logic p (coin_spawn p (boost_logic s2))"
    by blast
  have "boost_state s2 = boost_state s \<or> boost_state s2 = (INITIAL_BALL_SPEED, 0)"
    using handle_events_keeps [OF ev] out_of_bounds_keeps(6) [OF ob]
    by (auto simp add: after_paddles_keeps)
  then show ?thesis
    by (intro exI [of _ s2]) (simp add: s' coin_section_keeps boost_logic_keeps)
qed

subsection \<open>The speed boost\<close>

lemma boost_logic_two_values:
  "current_ball_speed (boost_logic s) = INITIAL_BALL_SPEED
   \<or> current_ball_speed (boost_logic s) = INITIAL_BALL_SPEED * BALL_BOOST_FACTOR
   \<or> current_ball_speed (boost_logic s) = current_ball_speed s"
  using boost_logic_state [of s] by (auto simp add: boost_state_def split: if_splits)

lemma frame_two_values:
  assumes "frame p i s = Some s'"
    and "current_ball_speed s = INITIAL_BALL_SPEED
         \<or> current_ball_speed s = INITIAL_BALL_SPEED * BALL_BOOST_FACTOR"
  shows "current_ball_speed s' = INITIAL_BALL_SPEED
         \<or> current_ball_speed s' = INITIAL_BALL_SPEED * BALL_BOOST_FACTOR"
proof -
  from frame_boost_state [OF assms(1)] obtain s2 where
    s2: "boost_state s2 = boost_state s \<or> boost_state s2 = (INITIAL_BALL_SPEED, 0)"
    and s': "boost_state s' = boost_state (boost_logic s2)"
    by blast
  from s2 assms(2) have "current_ball_speed s2 = INITIAL_BALL_SPEED
         \<or> current_ball_speed s2 = INITIAL_BALL_SPEED * BALL_BOOST_FACTOR"
    by (auto simp add: boost_state_def)
  with boost_logic_two_values [of s2] s' show ?thesis
    by (auto simp add: boost_state_def)
qed

lemma main_loop_two_values:
  "main_loop p is s = Some s' \<Longrightarrow>
   current_ball_speed s = INITIAL_BALL_SPEED
     \<or> current_ball_speed s = INITIAL_BALL_SPEED * BALL_BOOST_FACTOR \<Longrightarrow>
   current_ball_speed s' = INITIAL_BALL_SPEED
     \<or> current_ball_speed s' = INITIAL_BALL_SPEED * BALL_BOOST_FACTOR"
proof (induction "is" arbitrary: s)
  case Nil
  then show ?case by simp
next
  case (Cons i "is")
  show ?case
  proof (cases "quit s")
    case True
    with Cons.prems show ?thesis by simp
  next
    case False
    with Cons.prems(1) obtain s1 where s1: "frame p i s = Some s1" "main_loop p is s1 = Some s'"
      by (auto split: option.splits)
    from frame_two_values [OF s1(1) Cons.prems(2)] Cons.IH [OF s1(2)] show ?thesis
      by blast
  qed
qed

lemma run_frames_two_values:
  "run_frames p is s = Some s' \<Longrightarrow>
   current_ball_speed s = INITIAL_BALL_SPEED
     \<or> current_ball_speed s = INITIAL_BALL_SPEED * BALL_BOOST_FACTOR \<Longrightarrow>
   current_ball_speed s' = INITIAL_BALL_SPEED
     \<or> current_ball_speed s' = INITIAL_BALL_SPEED * BALL_BOOST_FACTOR"
proof (induction "is" arbitrary: s)
  case Nil
  then show ?case by simp
next
  case (Cons i "is")
  from Cons.prems(1) obtain s1 where s1: "frame p i s = Some s1" "run_frames p is s1 = Some s'"
    by (auto split: option.splits)
  from frame_two_values [OF s1(1) Cons.prems(2)] Cons.IH [OF s1(2)] show ?case
    by blast
qed

text \<open>
  Claim C10. At the end of every frame that the main loop reaches from the initial state
  (also when it runs on after a quit request) the ball speed is \<open>INITIAL_BALL_SPEED\<close> or
  \<open>INITIAL_BALL_SPEED * BALL_BOOST_FACTOR\<close>, hence positive and at most the boosted value.
  A reflection sets the speed to the boosted value whatever it was, so a reflection during
  a boost does not compound it.
\<close>

theorem ball_speed_two_values:
  "(main_loop p is (initial_state g) = Some s \<or> run_frames p is (initial_state g) = Some s \<longrightarrow>
      (current_ball_speed s = INITIAL_BALL_SPEED
        \<or> current_ball_speed s = INITIAL_BALL_SPEED * BALL_BOOST_FACTOR)
      \<and> 0 < current_ball_speed s
      \<and> current_ball_speed s \<le> INITIAL_BALL_SPEED * BALL_BOOST_FACTOR)
 \<and> (reflected_this_frame u \<longrightarrow>
      current_ball_speed (boost_logic u) = INITIAL_BALL_SPEED * BALL_BOOST_FACTOR)"
proof (intro conjI impI)
  assume run: "main_loop p is (initial_state g) = Some s \<or> run_frames p is (initial_state g) = Some s"
  have start: "current_ball_speed (initial_state g) = INITIAL_BALL_SPEED
     \<or> current_ball_speed (initial_state g) = INITIAL_BALL_SPEED * BALL_BOOST_FACTOR"
    by (simp add: initial_state_def)
  from run have two: "current_ball_speed s = INITIAL_BALL_SPEED
        \<or> current_ball_speed s = INITIAL_BALL_SPEED * BALL_BOOST_FACTOR"
    using main_loop_two_values [OF _ start] run_frames_two_values [OF _ start] by blast
  then show "current_ball_speed s = INITIAL_BALL_SPEED
        \<or> current_ball_speed s = INITIAL_BALL_SPEED * BALL_BOOST_FACTOR" .
  from two show "0 < current_ball_speed s"
    by (auto simp add: game_consts)
  from two show "current_ball_speed s \<le> INITIAL_BALL_SPEED * BALL_BOOST_FACTOR"
    by (auto simp add: game_consts)
next
  assume "reflected_this_frame u"
  then show "current_ball_speed (boost_logic u) = INITIAL_BALL_SPEED * BALL_BOOST_FACTOR"
    using boost_logic_state [of u] by (simp add: boost_state_def)
qed



lemma frame_trace_length: "frame_trace p is s = Some ss \<Longrightarrow> length ss = length is"
  by (induction "is" arbitrary: s ss) (auto split: option.splits)

subsection \<open>Concrete frames\<close>

lemma idle_input_sel:
  "events idle_input = []" "\<not> key_W idle_input" "\<not> key_S idle_input"
  "\<not> key_UP idle_input" "\<not> key_DOWN idle_input"
  by (simp_all add: idle_input_def)

lemma paddle_movement_idle: "paddle_movement idle_input s = s"
  by (simp add: paddle_movement_def idle_input_sel)





text \<open>Before the first click nothing moves; only the spawn counter goes up.\<close>

lemma waiting_frame:
  assumes "0 \<le> k" and "k + 1 < 300"
  shows "frame p idle_input ((initial_state g)\<lparr> coin_spawn_timer := k \<rparr>)
           = Some ((initial_state g)\<lparr> coin_spawn_timer := k + 1 \<rparr>)"
proof -
  let ?s = "(initial_state g)\<lparr> coin_spawn_timer := k \<rparr>"
  have ap: "after_paddles idle_input ?s = ?s"
    by (simp add: after_paddles_def paddle_movement_idle clamp_paddles_def clamp_rect_y_def
        ball_movement_def wall_collisions_def paddle_collisions_def left_paddle_hit_def
        right_paddle_hit_def initial_state_def game_consts signed_divide_int_def)
  have ob: "out_of_bounds p ?s = Some ?s"
    by (simp add: out_of_bounds_def initial_state_def game_consts signed_divide_int_def)
  have bl: "boost_logic ?s = ?s"
    by (simp add: boost_logic_def initial_state_def)
  have cs: "coin_spawn p ?s = (initial_state g)\<lparr> coin_spawn_timer := k + 1 \<rparr>"
    using assms by (simp add: coin_spawn_def Let_def COIN_APPEAR_INTERVAL_FRAMES_def)
  have cl: "coin_logic p ((initial_state g)\<lparr> coin_spawn_timer := k + 1 \<rparr>)
      = (initial_state g)\<lparr> coin_spawn_timer := k + 1 \<rparr>"
    by (simp add: coin_logic_def Let_def initial_state_def)
  show ?thesis
    by (simp add: frame_no_events idle_input_sel ap ob bl cs cl)
qed



lemma coin_logic_keeps:
  "ball_x (coin_logic p s) = ball_x s"
  "ball_y (coin_logic p s) = ball_y s"
  "ball_dx (coin_logic p s) = ball_dx s"
  "ball_dy (coin_logic p s) = ball_dy s"
  "current_ball_speed (coin_logic p s) = current_ball_speed s"
  "ball_boost_timer (coin_logic p s) = ball_boost_timer s"
  "leftPaddle (coin_logic p s) = leftPaddle s"
  "rightPaddle (coin_logic p s) = rightPaddle s"
  "coin_spawn_timer (coin_logic p s) = coin_spawn_timer s"
  "reflected_this_frame (coin_logic p s) = reflected_this_frame s"
  "last_ball_hit (coin_logic p s) = last_ball_hit s"
  "left_consecutive_hits (coin_logic p s) = left_consecutive_hits s"
  "right_consecutive_hits (coin_logic p s) = right_consecutive_hits s"
  "rand_state (coin_logic p s) = rand_state s"
  by (subst coin_logic_writes, simp)+

lemma coin_logic_no_coins: "coins s = [] \<Longrightarrow> coin_logic p s = s"
  by (simp add: coin_logic_def Let_def)

lemma coin_spawn_waiting:
  "coin_spawn_timer s + 1 < 300 \<Longrightarrow>
   coin_spawn p s = s\<lparr> coin_spawn_timer := coin_spawn_timer s + 1 \<rparr>"
  by (simp add: coin_spawn_def Let_def COIN_APPEAR_INTERVAL_FRAMES_def)



theorem ball_speed_two_values_witness:
  "main_loop demo_platform [idle_input] (initial_state (sconst 4096))
     = Some ((initial_state (sconst 4096))\<lparr> coin_spawn_timer := 1 \<rparr>)
   \<and> current_ball_speed ((initial_state (sconst 4096))\<lparr> coin_spawn_timer := 1 \<rparr>)
       = INITIAL_BALL_SPEED
   \<and> reflected_this_frame bounced
   \<and> current_ball_speed (boost_logic bounced) = INITIAL_BALL_SPEED * BALL_BOOST_FACTOR"
proof -
  have start: "(initial_state (sconst 4096))\<lparr> coin_spawn_timer := 0 \<rparr> = initial_state (sconst 4096)"
    by (simp add: initial_state_def)
  have run: "main_loop demo_platform [idle_input] (initial_state (sconst 4096))
     = Some ((initial_state (sconst 4096))\<lparr> coin_spawn_timer := 1 \<rparr>)"
    using waiting_frame [of 0 demo_platform "sconst 4096"]
    by (simp add: start) (simp add: initial_state_def)
  have flag: "reflected_this_frame bounced"
    by (simp add: bounced_def)
  show ?thesis
    using ball_speed_two_values [of demo_platform "[idle_input]" "sconst 4096"
        "(initial_state (sconst 4096))\<lparr> coin_spawn_timer := 1 \<rparr>" bounced] run flag
    by (simp add: initial_state_def)
qed

subsection \<open>Misses\<close>

text \<open>
  The out-of-bounds section on a ball past the left edge, and past the right edge: the
  point, the ball in the centre, a fresh direction, the base speed, and the timer, both
  counters and \<open>last_ball_hit\<close> cleared. The reflected flag is not touched.
\<close>

lemma out_of_bounds_left:
  assumes "out_of_bounds p s = Some s'" and "missed_left s"
  shows "right_score s' = right_score s + 1 \<and> left_score s' = left_score s
       \<and> ball_x s' = real_of_int WINDOW_WIDTH / 2 \<and> ball_y s' = real_of_int WINDOW_HEIGHT / 2
       \<and> boost_state s' = (INITIAL_BALL_SPEED, 0)
       \<and> left_consecutive_hits s' = 0 \<and> right_consecutive_hits s' = 0
       \<and> last_ball_hit s' = NoPaddle
       \<and> reflected_this_frame s' = reflected_this_frame s"
  using assms
  by (auto simp add: out_of_bounds_def reset_ball_def missed_left_def Let_def
      set_direction_unit boost_state_def split: option.splits)

lemma out_of_bounds_right:
  assumes "out_of_bounds p s = Some s'" and "missed_right s"
  shows "left_score s' = left_score s + 1 \<and> right_score s' = right_score s
       \<and> ball_x s' = real_of_int WINDOW_WIDTH / 2 \<and> ball_y s' = real_of_int WINDOW_HEIGHT / 2
       \<and> boost_state s' = (INITIAL_BALL_SPEED, 0)
       \<and> left_consecutive_hits s' = 0 \<and> right_consecutive_hits s' = 0
       \<and> last_ball_hit s' = NoPaddle
       \<and> reflected_this_frame s' = reflected_this_frame s"
  using assms
  by (auto simp add: out_of_bounds_def reset_ball_def missed_left_def missed_right_def Let_def
      set_direction_unit boost_state_def split: option.splits)

lemma coin_spawn_keeps:
  "ball_x (coin_spawn p s) = ball_x s"
  "ball_y (coin_spawn p s) = ball_y s"
  "ball_dx (coin_spawn p s) = ball_dx s"
  "ball_dy (coin_spawn p s) = ball_dy s"
  "current_ball_speed (coin_spawn p s) = current_ball_speed s"
  "ball_boost_timer (coin_spawn p s) = ball_boost_timer s"
  "leftPaddle (coin_spawn p s) = leftPaddle s"
  "rightPaddle (coin_spawn p s) = rightPaddle s"
  "reflected_this_frame (coin_spawn p s) = reflected_this_frame s"
  "last_ball_hit (coin_spawn p s) = last_ball_hit s"
  "left_consecutive_hits (coin_spawn p s) = left_consecutive_hits s"
  "right_consecutive_hits (coin_spawn p s) = right_consecutive_hits s"
  "left_score (coin_spawn p s) = left_score s"
  "right_score (coin_spawn p s) = right_score s"
  by (simp_all add: coin_spawn_def spawnCoin_def Let_def)

text \<open>
  A frame with a miss, to its end. What the reset wrote stays, except for the speed and the
  timer: the boost section runs after the reset and still sees the flag of this frame. With
  no reflection in the frame the speed is the base speed and the timer 0; with a
  reflection the speed is boosted again and the timer is 29.
\<close>

lemma frame_with_miss:
  assumes "frame p i s = Some s'"
    and "handle_events p (events i) s = Some s1"
    and "missed_left (after_paddles i s1) \<or> missed_right (after_paddles i s1)"
  shows "ball_x s' = real_of_int WINDOW_WIDTH / 2 \<and> ball_y s' = real_of_int WINDOW_HEIGHT / 2
       \<and> (ball_dx s')\<^sup>2 + (ball_dy s')\<^sup>2 = 1
       \<and> left_consecutive_hits s' = 0 \<and> right_consecutive_hits s' = 0
       \<and> last_ball_hit s' = NoPaddle
       \<and> boost_state s' =
           (if reflected_this_frame (after_paddles i s1)
            then (INITIAL_BALL_SPEED * BALL_BOOST_FACTOR, BALL_BOOST_DURATION_FRAMES - 1)
            else (INITIAL_BALL_SPEED, 0))"
proof -
  let ?m = "after_paddles i s1"
  from frame_Some [OF assms(1)] assms(2) obtain s2 where
    ob: "out_of_bounds p ?m = Some s2"
    and s': "s' = coin_logic p (coin_spawn p (boost_logic s2))"
    by auto
  from assms(3) out_of_bounds_left [OF ob] out_of_bounds_right [OF ob]
  have reset: "ball_x s2 = real_of_int WINDOW_WIDTH / 2 \<and> ball_y s2 = real_of_int WINDOW_HEIGHT / 2
       \<and> boost_state s2 = (INITIAL_BALL_SPEED, 0)
       \<and> left_consecutive_hits s2 = 0 \<and> right_consecutive_hits s2 = 0
       \<and> last_ball_hit s2 = NoPaddle
       \<and> reflected_this_frame s2 = reflected_this_frame ?m"
    by blast
  from out_of_bounds_direction [OF ob assms(3)]
  have unit: "(ball_dx s2)\<^sup>2 + (ball_dy s2)\<^sup>2 = 1"
    by auto
  have boost: "boost_state (boost_logic s2) =
           (if reflected_this_frame ?m
            then (INITIAL_BALL_SPEED * BALL_BOOST_FACTOR, BALL_BOOST_DURATION_FRAMES - 1)
            else (INITIAL_BALL_SPEED, 0))"
    using reset boost_logic_state [of s2] by (simp add: boost_state_def)
  have mem: "streak_memory (boost_logic s2) = streak_memory s2"
    by (rule boost_logic_keeps)
  show ?thesis
    using reset unit boost mem
    by (simp add: s' coin_section_keeps(1) coin_logic_keeps coin_spawn_keeps boost_logic_keeps
        streak_memory_def)
qed


lemma corner_miss_after_paddles:
  "after_paddles idle_input corner_miss
     = corner_miss\<lparr> ball_x := 68 / 5, ball_y := 585, ball_dy := - (4 / 5),
                      reflected_this_frame := True \<rparr>"
  by (simp add: after_paddles_def paddle_movement_idle clamp_paddles_def clamp_rect_y_def
      ball_movement_def wall_collisions_def paddle_collisions_def left_paddle_hit_def
      right_paddle_hit_def corner_miss_def ball_at_def fresh_game_def initial_state_def
      game_consts signed_divide_int_def checkCircleRectCollision_def)

lemma corner_miss_frame: "frame demo_platform idle_input corner_miss = Some corner_reset"
proof -
  have rand: "rand_state corner_miss = sconst 4096"
    by (simp add: corner_miss_def ball_at_def fresh_game_rand)
  have ob: "out_of_bounds demo_platform (after_paddles idle_input corner_miss)
      = Some (corner_miss\<lparr> ball_x := 400, ball_y := 300,
                             ball_dx := cos demo_angle, ball_dy := sin demo_angle,
                             right_score := 1, reflected_this_frame := True \<rparr>)"
    unfolding corner_miss_after_paddles
    by (simp add: out_of_bounds_def reset_ball_def Let_def rand random_angle_demo
        set_direction_unit BALL_RADIUS_15 WINDOW_WIDTH_def WINDOW_HEIGHT_def)
       (simp add: corner_miss_def ball_at_def fresh_game_def initial_state_def game_consts)
  show ?thesis
    unfolding frame_no_events [OF idle_input_sel(1)] ob
    by (simp add: boost_logic_def coin_spawn_def coin_logic_def Let_def corner_reset_def
        corner_miss_def ball_at_def fresh_game_def initial_state_def game_consts)
qed

text \<open>
  Claim C1, on the code. In the frame that starts in \<^const>\<open>corner_miss\<close> the ball passes
  the left edge while it meets the floor. The frame ends with the point for the right
  player, the ball in the centre of the window, both counters at 0 and no last hit, as the
  claim says, but with the boosted speed and the timer at 29, where the claim says the base
  speed and 0 also for a frame with a wall reflection.
\<close>

theorem miss_in_corner_keeps_boost:
  "frame demo_platform idle_input corner_miss = Some corner_reset
   \<and> missed_left (after_paddles idle_input corner_miss)
   \<and> reflected_this_frame (after_paddles idle_input corner_miss)
   \<and> right_score corner_reset = right_score corner_miss + 1
   \<and> ball_x corner_reset = real_of_int WINDOW_WIDTH / 2
   \<and> ball_y corner_reset = real_of_int WINDOW_HEIGHT / 2
   \<and> left_consecutive_hits corner_reset = 0
   \<and> right_consecutive_hits corner_reset = 0
   \<and> last_ball_hit corner_reset = NoPaddle
   \<and> current_ball_speed corner_reset = INITIAL_BALL_SPEED * BALL_BOOST_FACTOR
   \<and> current_ball_speed corner_reset \<noteq> INITIAL_BALL_SPEED
   \<and> ball_boost_timer corner_reset = 29"
proof -
  have miss: "missed_left (after_paddles idle_input corner_miss)"
    "reflected_this_frame (after_paddles idle_input corner_miss)"
    unfolding corner_miss_after_paddles
    by (simp_all add: missed_left_def BALL_RADIUS_15)
  have vals: "right_score corner_reset = right_score corner_miss + 1"
    "ball_x corner_reset = real_of_int WINDOW_WIDTH / 2"
    "ball_y corner_reset = real_of_int WINDOW_HEIGHT / 2"
    "left_consecutive_hits corner_reset = 0"
    "right_consecutive_hits corner_reset = 0"
    "last_ball_hit corner_reset = NoPaddle"
    "current_ball_speed corner_reset = INITIAL_BALL_SPEED * BALL_BOOST_FACTOR"
    "current_ball_speed corner_reset \<noteq> INITIAL_BALL_SPEED"
    "ball_boost_timer corner_reset = 29"
    by (simp_all add: corner_reset_def corner_miss_def ball_at_def fresh_game_def
        initial_state_def game_consts)
  show ?thesis
    by (intro conjI) (fact corner_miss_frame miss vals)+
qed

subsection \<open>Spawning coins\<close>

lemma smod_nonneg: "0 \<le> a \<Longrightarrow> 0 < b \<Longrightarrow> a smod b = a mod b" for a b :: int
  by (cases "a = 0") (simp_all add: signed_modulo_int_def)

lemma sdiv_two_nonneg: "0 \<le> a \<Longrightarrow> a sdiv 2 = a div 2" for a :: int
  by (cases "a = 0") (simp_all add: signed_divide_int_def)

lemma spawnCoin_coins:
  "coins (spawnCoin p s) =
     coins s @
       [\<lparr> coin_x = real_of_int (shd (rand_state s)
                       smod (WINDOW_WIDTH - 2 * PADDLE_WIDTH - coinEffectiveWidth p)
                     + PADDLE_WIDTH + coinEffectiveWidth p sdiv 2),
          coin_y = real_of_int (shd (stl (rand_state s))
                       smod (WINDOW_HEIGHT - coinEffectiveHeight p)
                     + coinEffectiveHeight p sdiv 2),
          coin_timer = COIN_DURATION_FRAMES \<rparr>]"
  by (simp add: spawnCoin_def Let_def)

text \<open>
  Where a coin is put, for a coin narrower than the field between the paddles and lower
  than the window, and non-negative values of \<^verbatim>\<open>rand()\<close>: the box starts at the paddle
  width or further right and ends before the right paddle, and lies between the top and the
  bottom edge; the centre is half a coin away from the top edge or further.
\<close>

lemma spawnCoin_position:
  assumes "0 \<le> coinEffectiveWidth p" and "coinEffectiveWidth p < 760"
    and "0 \<le> coinEffectiveHeight p" and "coinEffectiveHeight p < 600"
    and "0 \<le> shd (rand_state s)" and "0 \<le> shd (stl (rand_state s))"
  shows "PADDLE_WIDTH \<le> rect_x (coinRect (coinEffectiveWidth p) (coinEffectiveHeight p)
                                  (last (coins (spawnCoin p s))))
       \<and> rect_x (coinRect (coinEffectiveWidth p) (coinEffectiveHeight p)
                   (last (coins (spawnCoin p s)))) + coinEffectiveWidth p
           < WINDOW_WIDTH - PADDLE_WIDTH
       \<and> 0 \<le> rect_y (coinRect (coinEffectiveWidth p) (coinEffectiveHeight p)
                        (last (coins (spawnCoin p s))))
       \<and> rect_y (coinRect (coinEffectiveWidth p) (coinEffectiveHeight p)
                   (last (coins (spawnCoin p s)))) + coinEffectiveHeight p
           < WINDOW_HEIGHT
       \<and> real_of_int (coinEffectiveHeight p sdiv 2) \<le> coin_y (last (coins (spawnCoin p s)))"
proof -
  let ?w = "coinEffectiveWidth p" and ?h = "coinEffectiveHeight p"
  let ?r1 = "shd (rand_state s)" and ?r2 = "shd (stl (rand_state s))"
  have x: "0 \<le> ?r1 mod (760 - ?w)" "?r1 mod (760 - ?w) < 760 - ?w"
    using assms(2) by simp_all
  have y: "0 \<le> ?r2 mod (600 - ?h)" "?r2 mod (600 - ?h) < 600 - ?h"
    using assms(4) by simp_all
  have box_x: "rect_x (coinRect ?w ?h (last (coins (spawnCoin p s)))) = ?r1 mod (760 - ?w) + 20"
    using assms(1,2,5) float_to_int_of_int [of "?r1 mod (760 - ?w) + 20"]
    by (simp add: spawnCoin_coins coinRect_def game_consts smod_nonneg sdiv_two_nonneg
        del: float_to_int_of_int)
  have box_y: "rect_y (coinRect ?w ?h (last (coins (spawnCoin p s)))) = ?r2 mod (600 - ?h)"
    using assms(3,4,6) float_to_int_of_int [of "?r2 mod (600 - ?h)"]
    by (simp add: spawnCoin_coins coinRect_def game_consts smod_nonneg sdiv_two_nonneg
        del: float_to_int_of_int)
  have cy: "coin_y (last (coins (spawnCoin p s)))
      = real_of_int (?r2 mod (600 - ?h) + ?h sdiv 2)"
    using assms(3,4,6) by (simp add: spawnCoin_coins game_consts smod_nonneg)
  show ?thesis
    using x y by (simp add: box_x box_y cy PADDLE_WIDTH_def WINDOW_WIDTH_def WINDOW_HEIGHT_def)
qed

text \<open>While the coin list is empty and the counter below 299, a frame only counts.\<close>

lemma frame_counts:
  assumes "frame p i s = Some s'" and "coins s = []" and "coin_spawn_timer s + 1 < 300"
  shows "coins s' = [] \<and> coin_spawn_timer s' = coin_spawn_timer s + 1"
proof -
  from frame_Some [OF assms(1)] obtain s1 s2 where
    ev: "handle_events p (events i) s = Some s1"
    and ob: "out_of_bounds p (after_paddles i s1) = Some s2"
    and s': "s' = coin_logic p (coin_spawn p (boost_logic s2))"
    by blast
  have same: "coins (boost_logic s2) = [] \<and> coin_spawn_timer (boost_logic s2) = coin_spawn_timer s"
    using handle_events_keeps [OF ev] out_of_bounds_keeps(2,3) [OF ob] assms(2)
    by (simp add: boost_logic_keeps after_paddles_keeps)
  then have "coin_spawn p (boost_logic s2)
      = (boost_logic s2)\<lparr> coin_spawn_timer := coin_spawn_timer s + 1 \<rparr>"
    using assms(3) coin_spawn_waiting [of "boost_logic s2" p] by simp
  with same show ?thesis
    by (simp add: s' coin_logic_no_coins)
qed

text \<open>
  The frame that takes the counter to 300 spawns one coin and sets the counter to 0; the
  coin section of the same frame then takes one frame off the coin, or collects it.
\<close>

lemma frame_spawns:
  assumes "frame p i s = Some s'" and "coins s = []" and "coin_spawn_timer s = 299"
  shows "coin_spawn_timer s' = 0
       \<and> (coins s' = [] \<or> (\<exists>c. coins s' = [c] \<and> coin_timer c = COIN_DURATION_FRAMES - 1))"
proof -
  from frame_Some [OF assms(1)] obtain s1 s2 where
    ev: "handle_events p (events i) s = Some s1"
    and ob: "out_of_bounds p (after_paddles i s1) = Some s2"
    and s': "s' = coin_logic p (coin_spawn p (boost_logic s2))"
    by blast
  let ?b = "boost_logic s2"
  have same: "coins ?b = [] \<and> coin_spawn_timer ?b = 299"
    using handle_events_keeps [OF ev] out_of_bounds_keeps(2,3) [OF ob] assms(2,3)
    by (simp add: boost_logic_keeps after_paddles_keeps)
  then obtain c where c: "coins (coin_spawn p ?b) = [c]" "coin_timer c = COIN_DURATION_FRAMES"
    and t: "coin_spawn_timer (coin_spawn p ?b) = 0"
    by (simp add: coin_spawn_def Let_def spawnCoin_coins COIN_APPEAR_INTERVAL_FRAMES_def)
  have "coins s' = [] \<or> coins s' = [age_coin c]"
    unfolding s' coin_logic_coins c by simp
  with c(2) t show ?thesis
    by (auto simp add: s' coin_logic_keeps age_coin_def)
qed

lemma run_frames_append:
  "run_frames p (is @ js) s =
     (case run_frames p is s of None \<Rightarrow> None | Some s' \<Rightarrow> run_frames p js s')"
  by (induction "is" arbitrary: s) (simp_all split: option.splits)

lemma run_frames_counts:
  "run_frames p is s = Some s' \<Longrightarrow> coins s = [] \<Longrightarrow>
   coin_spawn_timer s + int (length is) < 300 \<Longrightarrow>
   coins s' = [] \<and> coin_spawn_timer s' = coin_spawn_timer s + int (length is)"
proof (induction "is" arbitrary: s)
  case Nil
  then show ?case by simp
next
  case (Cons i "is")
  from Cons.prems(1) obtain s1 where s1: "frame p i s = Some s1" "run_frames p is s1 = Some s'"
    by (auto split: option.splits)
  from frame_counts [OF s1(1) Cons.prems(2)] Cons.prems(3)
  have one: "coins s1 = []" "coin_spawn_timer s1 = coin_spawn_timer s + 1"
    by simp_all
  from Cons.IH [OF s1(2) one(1)] one(2) Cons.prems(3) show ?case
    by simp
qed


text \<open>
  Claim C8, as amended. The spawn section adds 1 to the frame counter; below 300 it leaves
  the coin list alone; at 300 it appends exactly one coin with lifetime
  \<open>COIN_DURATION_FRAMES\<close> and sets the counter to 0. For a coin narrower than 760 and
  lower than 600 pixels and non-negative values of \<^verbatim>\<open>rand()\<close>, the box of the new coin
  lies between the paddle columns and between the top and the bottom edge of the window,
  and its centre is at least half a coin height below the top edge. From the initial state
  the coin list is empty after each of the first 299 frames, with the counter at the number
  of frames; after frame 300 the counter is 0 and the list is empty again or holds the one
  new coin with 599 frames left, since the coin section of frame 300 has already looked at
  the coin.
\<close>

theorem coin_spawn_every_300_frames:
  "coin_spawn_timer (coin_spawn p s) =
     (if coin_spawn_timer s + 1 \<ge> COIN_APPEAR_INTERVAL_FRAMES then 0 else coin_spawn_timer s + 1)
 \<and> (coin_spawn_timer s + 1 < COIN_APPEAR_INTERVAL_FRAMES \<longrightarrow> coins (coin_spawn p s) = coins s)
 \<and> (coin_spawn_timer s + 1 \<ge> COIN_APPEAR_INTERVAL_FRAMES \<longrightarrow>
      (\<exists>c. coins (coin_spawn p s) = coins s @ [c] \<and> coin_timer c = COIN_DURATION_FRAMES
         \<and> (0 \<le> coinEffectiveWidth p \<and> coinEffectiveWidth p < 760
              \<and> 0 \<le> coinEffectiveHeight p \<and> coinEffectiveHeight p < 600
              \<and> 0 \<le> shd (rand_state s) \<and> 0 \<le> shd (stl (rand_state s)) \<longrightarrow>
            PADDLE_WIDTH \<le> rect_x (coinRect (coinEffectiveWidth p) (coinEffectiveHeight p) c)
          \<and> rect_x (coinRect (coinEffectiveWidth p) (coinEffectiveHeight p) c)
                + coinEffectiveWidth p < WINDOW_WIDTH - PADDLE_WIDTH
          \<and> 0 \<le> rect_y (coinRect (coinEffectiveWidth p) (coinEffectiveHeight p) c)
          \<and> rect_y (coinRect (coinEffectiveWidth p) (coinEffectiveHeight p) c)
                + coinEffectiveHeight p < WINDOW_HEIGHT
          \<and> real_of_int (coinEffectiveHeight p sdiv 2) \<le> coin_y c)))
 \<and> (run_frames p is (initial_state g) = Some t \<and> length is < 300 \<longrightarrow>
      coins t = [] \<and> coin_spawn_timer t = int (length is))
 \<and> (run_frames p is (initial_state g) = Some t \<and> length is = 300 \<longrightarrow>
      coin_spawn_timer t = 0
    \<and> (coins t = [] \<or> (\<exists>c. coins t = [c] \<and> coin_timer c = COIN_DURATION_FRAMES - 1)))"
proof (intro conjI impI)
  show "coin_spawn_timer (coin_spawn p s) =
     (if coin_spawn_timer s + 1 \<ge> COIN_APPEAR_INTERVAL_FRAMES then 0 else coin_spawn_timer s + 1)"
    by (simp add: coin_spawn_def Let_def)
next
  assume "coin_spawn_timer s + 1 < COIN_APPEAR_INTERVAL_FRAMES"
  then show "coins (coin_spawn p s) = coins s"
    by (simp add: coin_spawn_def Let_def)
next
  assume due: "coin_spawn_timer s + 1 \<ge> COIN_APPEAR_INTERVAL_FRAMES"
  let ?s1 = "s\<lparr> coin_spawn_timer := coin_spawn_timer s + 1 \<rparr>"
  let ?c = "last (coins (spawnCoin p ?s1))"
  from due have spawned: "coins (coin_spawn p s) = coins (spawnCoin p ?s1)"
    by (simp add: coin_spawn_def Let_def)
  have one: "coins (spawnCoin p ?s1) = coins s @ [?c]" and life: "coin_timer ?c = COIN_DURATION_FRAMES"
    by (simp_all add: spawnCoin_coins)
  have place: "0 \<le> coinEffectiveWidth p \<and> coinEffectiveWidth p < 760
              \<and> 0 \<le> coinEffectiveHeight p \<and> coinEffectiveHeight p < 600
              \<and> 0 \<le> shd (rand_state s) \<and> 0 \<le> shd (stl (rand_state s)) \<longrightarrow>
            PADDLE_WIDTH \<le> rect_x (coinRect (coinEffectiveWidth p) (coinEffectiveHeight p) ?c)
          \<and> rect_x (coinRect (coinEffectiveWidth p) (coinEffectiveHeight p) ?c)
                + coinEffectiveWidth p < WINDOW_WIDTH - PADDLE_WIDTH
          \<and> 0 \<le> rect_y (coinRect (coinEffectiveWidth p) (coinEffectiveHeight p) ?c)
          \<and> rect_y (coinRect (coinEffectiveWidth p) (coinEffectiveHeight p) ?c)
                + coinEffectiveHeight p < WINDOW_HEIGHT
          \<and> real_of_int (coinEffectiveHeight p sdiv 2) \<le> coin_y ?c"
  proof
    assume "0 \<le> coinEffectiveWidth p \<and> coinEffectiveWidth p < 760
              \<and> 0 \<le> coinEffectiveHeight p \<and> coinEffectiveHeight p < 600
              \<and> 0 \<le> shd (rand_state s) \<and> 0 \<le> shd (stl (rand_state s))"
    then show "PADDLE_WIDTH \<le> rect_x (coinRect (coinEffectiveWidth p) (coinEffectiveHeight p) ?c)
          \<and> rect_x (coinRect (coinEffectiveWidth p) (coinEffectiveHeight p) ?c)
                + coinEffectiveWidth p < WINDOW_WIDTH - PADDLE_WIDTH
          \<and> 0 \<le> rect_y (coinRect (coinEffectiveWidth p) (coinEffectiveHeight p) ?c)
          \<and> rect_y (coinRect (coinEffectiveWidth p) (coinEffectiveHeight p) ?c)
                + coinEffectiveHeight p < WINDOW_HEIGHT
          \<and> real_of_int (coinEffectiveHeight p sdiv 2) \<le> coin_y ?c"
      by (intro spawnCoin_position) simp_all
  qed
  have first: "coins (coin_spawn p s) = coins s @ [?c]"
    using spawned one by simp
  show "\<exists>c. coins (coin_spawn p s) = coins s @ [c] \<and> coin_timer c = COIN_DURATION_FRAMES
         \<and> (0 \<le> coinEffectiveWidth p \<and> coinEffectiveWidth p < 760
              \<and> 0 \<le> coinEffectiveHeight p \<and> coinEffectiveHeight p < 600
              \<and> 0 \<le> shd (rand_state s) \<and> 0 \<le> shd (stl (rand_state s)) \<longrightarrow>
            PADDLE_WIDTH \<le> rect_x (coinRect (coinEffectiveWidth p) (coinEffectiveHeight p) c)
          \<and> rect_x (coinRect (coinEffectiveWidth p) (coinEffectiveHeight p) c)
                + coinEffectiveWidth p < WINDOW_WIDTH - PADDLE_WIDTH
          \<and> 0 \<le> rect_y (coinRect (coinEffectiveWidth p) (coinEffectiveHeight p) c)
          \<and> rect_y (coinRect (coinEffectiveWidth p) (coinEffectiveHeight p) c)
                + coinEffectiveHeight p < WINDOW_HEIGHT
          \<and> real_of_int (coinEffectiveHeight p sdiv 2) \<le> coin_y c)"
    by (rule exI [of _ ?c]) (intro conjI first life place)
next
  assume run: "run_frames p is (initial_state g) = Some t \<and> length is < 300"
  have start: "coins (initial_state g) = []" "coin_spawn_timer (initial_state g) = 0"
    by (simp_all add: initial_state_def)
  from run run_frames_counts [of p "is" "initial_state g" t] start
  show "coins t = []" and "coin_spawn_timer t = int (length is)"
    by simp_all
next
  assume run: "run_frames p is (initial_state g) = Some t \<and> length is = 300"
  have start: "coins (initial_state g) = []" "coin_spawn_timer (initial_state g) = 0"
    by (simp_all add: initial_state_def)
  from run have parts: "is = take 299 is @ [is ! 299]"
    by (simp add: take_Suc_conv_app_nth [symmetric])
  from run obtain t1 where
    t1: "run_frames p (take 299 is) (initial_state g) = Some t1"
    and last: "frame p (is ! 299) t1 = Some t"
    using run_frames_append [of p "take 299 is" "[is ! 299]" "initial_state g"]
    by (subst (asm) parts) (auto split: option.splits)
  from run have "coins t1 = [] \<and> coin_spawn_timer t1 = 299"
    using run_frames_counts [OF t1 start(1)] start(2) by simp
  with frame_spawns [OF last]
  show "coin_spawn_timer t = 0"
    and "coins t = [] \<or> (\<exists>c. coins t = [c] \<and> coin_timer c = COIN_DURATION_FRAMES - 1)"
    by simp_all
qed


lemma demo_coin_size:
  "coinEffectiveWidth demo_platform = 25" "coinEffectiveHeight demo_platform = 25"
  "getCoinRenderedWidth demo_platform (4 / 5) = 25"
  "getCoinRenderedHeight demo_platform (4 / 5) = 25"
  by (simp_all add: getCoinRenderedWidth_def getCoinRenderedHeight_def demo_platform_def
      COIN_DRAW_SCALE_def float_to_int_def)

lemma waiting_frames:
  "0 \<le> k \<Longrightarrow> k + int n < 300 \<Longrightarrow>
   run_frames p (replicate n idle_input) ((initial_state g)\<lparr> coin_spawn_timer := k \<rparr>)
     = Some ((initial_state g)\<lparr> coin_spawn_timer := k + int n \<rparr>)"
proof (induction n arbitrary: k)
  case 0
  then show ?case by simp
next
  case (Suc n)
  from Suc.prems have "frame p idle_input ((initial_state g)\<lparr> coin_spawn_timer := k \<rparr>)
      = Some ((initial_state g)\<lparr> coin_spawn_timer := k + 1 \<rparr>)"
    by (intro waiting_frame) simp_all
  moreover from Suc.prems have "run_frames p (replicate n idle_input)
        ((initial_state g)\<lparr> coin_spawn_timer := k + 1 \<rparr>)
      = Some ((initial_state g)\<lparr> coin_spawn_timer := k + 1 + int n \<rparr>)"
    by (intro Suc.IH) simp_all
  ultimately show ?case
    by (simp add: add.assoc add.commute)
qed

lemma waited_299:
  "run_frames p (replicate 299 idle_input) (initial_state g)
     = Some ((initial_state g)\<lparr> coin_spawn_timer := 299 \<rparr>)"
proof -
  have "(initial_state g)\<lparr> coin_spawn_timer := 0 \<rparr> = initial_state g"
    by (simp add: initial_state_def)
  with waiting_frames [of 0 299 p g] show ?thesis
    by simp
qed

lemma replicate_300: "replicate 300 x = replicate 299 x @ [x]"
proof -
  have "replicate (Suc 299) x = replicate 299 x @ [x]"
    by (simp only: replicate_Suc replicate_append_same)
  then show ?thesis
    by simp
qed

text \<open>Frame 300 for the two streams: the coin lands away from the ball, or on it.\<close>

lemma frame_300_before_coin_section:
  "after_paddles idle_input ((initial_state g)\<lparr> coin_spawn_timer := 299 \<rparr>)
     = (initial_state g)\<lparr> coin_spawn_timer := 299 \<rparr>"
  "out_of_bounds p ((initial_state g)\<lparr> coin_spawn_timer := 299 \<rparr>)
     = Some ((initial_state g)\<lparr> coin_spawn_timer := 299 \<rparr>)"
  "boost_logic ((initial_state g)\<lparr> coin_spawn_timer := 299 \<rparr>)
     = (initial_state g)\<lparr> coin_spawn_timer := 299 \<rparr>"
  by (simp_all add: after_paddles_def paddle_movement_idle clamp_paddles_def clamp_rect_y_def
      ball_movement_def wall_collisions_def paddle_collisions_def left_paddle_hit_def
      right_paddle_hit_def out_of_bounds_def boost_logic_def initial_state_def game_consts
      signed_divide_int_def)

lemma frame_300_coin_kept:
  "frame demo_platform idle_input ((initial_state (sconst 4096))\<lparr> coin_spawn_timer := 299 \<rparr>)
     = Some ((initial_state (sconst 4096))
               \<lparr> coins := [\<lparr> coin_x = 453, coin_y = 83, coin_timer = 599 \<rparr>] \<rparr>)"
proof -
  have cs: "coin_spawn demo_platform ((initial_state (sconst 4096))\<lparr> coin_spawn_timer := 299 \<rparr>)
      = (initial_state (sconst 4096))
          \<lparr> coins := [\<lparr> coin_x = 453, coin_y = 83, coin_timer = 600 \<rparr>] \<rparr>"
    by (simp add: coin_spawn_def spawnCoin_def Let_def demo_coin_size initial_state_def
        game_consts signed_divide_int_def signed_modulo_int_def)
  have cl: "coin_logic demo_platform ((initial_state (sconst 4096))
          \<lparr> coins := [\<lparr> coin_x = 453, coin_y = 83, coin_timer = 600 \<rparr>] \<rparr>)
      = (initial_state (sconst 4096))
          \<lparr> coins := [\<lparr> coin_x = 453, coin_y = 83, coin_timer = 599 \<rparr>] \<rparr>"
    by (simp add: coin_logic_def Let_def demo_coin_size collect_coin_def coinRect_def
        checkCircleRectCollision_def checkRectRectCollision_def demo_platform_sel
        sdl_has_intersection_def float_to_int_def initial_state_def game_consts
        signed_divide_int_def)
  show ?thesis
    by (simp add: frame_no_events idle_input_sel frame_300_before_coin_section cs cl)
qed

lemma frame_300_coin_collected:
  "frame demo_platform idle_input ((initial_state centre_coin_rand)\<lparr> coin_spawn_timer := 299 \<rparr>)
     = Some (initial_state (sconst 4096))"
proof -
  have cs: "coin_spawn demo_platform ((initial_state centre_coin_rand)\<lparr> coin_spawn_timer := 299 \<rparr>)
      = (initial_state (sconst 4096))
          \<lparr> coins := [\<lparr> coin_x = 400, coin_y = 300, coin_timer = 600 \<rparr>] \<rparr>"
    by (simp add: coin_spawn_def spawnCoin_def Let_def demo_coin_size initial_state_def
        centre_coin_rand_def game_consts signed_divide_int_def signed_modulo_int_def)
  have cl: "coin_logic demo_platform ((initial_state (sconst 4096))
          \<lparr> coins := [\<lparr> coin_x = 400, coin_y = 300, coin_timer = 600 \<rparr>] \<rparr>)
      = initial_state (sconst 4096)"
    by (simp add: coin_logic_def Let_def demo_coin_size collect_coin_def coinRect_def
        checkCircleRectCollision_def checkRectRectCollision_def demo_platform_sel
        sdl_has_intersection_def float_to_int_def initial_state_def game_consts
        signed_divide_int_def)
  show ?thesis
    by (simp add: frame_no_events idle_input_sel frame_300_before_coin_section cs cl)
qed

lemma run_300_coin_kept:
  "run_frames demo_platform (replicate 300 idle_input) (initial_state (sconst 4096))
     = Some ((initial_state (sconst 4096))
               \<lparr> coins := [\<lparr> coin_x = 453, coin_y = 83, coin_timer = 599 \<rparr>] \<rparr>)"
  by (simp only: replicate_300 run_frames_append waited_299 option.case run_frames.simps
      frame_300_coin_kept)

lemma run_300_coin_collected:
  "run_frames demo_platform (replicate 300 idle_input) (initial_state centre_coin_rand)
     = Some (initial_state (sconst 4096))"
  by (simp only: replicate_300 run_frames_append waited_299 option.case run_frames.simps
      frame_300_coin_collected)

theorem coin_spawn_every_300_frames_witness:
  "coin_spawn_timer fresh_game + 1 < COIN_APPEAR_INTERVAL_FRAMES
   \<and> coins (coin_spawn demo_platform fresh_game) = coins fresh_game
   \<and> run_frames demo_platform [idle_input] (initial_state (sconst 4096))
       = Some ((initial_state (sconst 4096))\<lparr> coin_spawn_timer := 1 \<rparr>)
   \<and> coin_spawn_timer ((initial_state (sconst 4096))\<lparr> coin_spawn_timer := 1 \<rparr>) = 1
   \<and> run_frames demo_platform (replicate 300 idle_input) (initial_state (sconst 4096))
       = Some ((initial_state (sconst 4096))
                 \<lparr> coins := [\<lparr> coin_x = 453, coin_y = 83, coin_timer = 599 \<rparr>] \<rparr>)
   \<and> coin_spawn_timer (fresh_game\<lparr> coin_spawn_timer := 299 \<rparr>) + 1 \<ge> COIN_APPEAR_INTERVAL_FRAMES
   \<and> 0 \<le> coinEffectiveWidth demo_platform \<and> coinEffectiveWidth demo_platform < 760
   \<and> 0 \<le> coinEffectiveHeight demo_platform \<and> coinEffectiveHeight demo_platform < 600
   \<and> 0 \<le> shd (rand_state (fresh_game\<lparr> coin_spawn_timer := 299 \<rparr>))
   \<and> 0 \<le> shd (stl (rand_state (fresh_game\<lparr> coin_spawn_timer := 299 \<rparr>)))
   \<and> length (coins (coin_spawn demo_platform (fresh_game\<lparr> coin_spawn_timer := 299 \<rparr>))) = 1
   \<and> coin_spawn_timer (coin_spawn demo_platform (fresh_game\<lparr> coin_spawn_timer := 299 \<rparr>)) = 0"
proof -
  have one: "run_frames demo_platform [idle_input] (initial_state (sconst 4096))
       = Some ((initial_state (sconst 4096))\<lparr> coin_spawn_timer := 1 \<rparr>)"
    using waiting_frames [of 0 1 demo_platform "sconst 4096"]
    by (simp add: initial_state_def)
  have fresh: "coin_spawn_timer fresh_game = 0" "coins fresh_game = []"
    "rand_state fresh_game = sconst 4096"
    by (simp_all add: fresh_game_def initial_state_def)
  note a = coin_spawn_every_300_frames [of demo_platform fresh_game "[idle_input]" "sconst 4096"
      "(initial_state (sconst 4096))\<lparr> coin_spawn_timer := 1 \<rparr>"]
  note b = coin_spawn_every_300_frames [of demo_platform "fresh_game\<lparr> coin_spawn_timer := 299 \<rparr>"
      "replicate 300 idle_input" "sconst 4096"
      "(initial_state (sconst 4096))
         \<lparr> coins := [\<lparr> coin_x = 453, coin_y = 83, coin_timer = 599 \<rparr>] \<rparr>"]
  have kept: "coins (coin_spawn demo_platform fresh_game) = coins fresh_game"
    and count: "coin_spawn_timer ((initial_state (sconst 4096))\<lparr> coin_spawn_timer := 1 \<rparr>) = 1"
    using a one by (simp_all add: fresh COIN_APPEAR_INTERVAL_FRAMES_def)
  have spawned: "length (coins (coin_spawn demo_platform (fresh_game\<lparr> coin_spawn_timer := 299 \<rparr>))) = 1"
    and reset: "coin_spawn_timer (coin_spawn demo_platform (fresh_game\<lparr> coin_spawn_timer := 299 \<rparr>)) = 0"
    using b by (auto simp add: fresh COIN_APPEAR_INTERVAL_FRAMES_def)
  show ?thesis
    using kept count spawned reset one run_300_coin_kept
    by (simp add: fresh demo_coin_size COIN_APPEAR_INTERVAL_FRAMES_def)
qed

text \<open>
  The claim as stated has exactly one coin in the list after frame 300, and a margin of half
  a coin between the box of a new coin and the top edge. With the values of
  \<^const>\<open>centre_coin_rand\<close> the coin of frame 300 lands on the ball, which waits in the
  centre for the first click, and is collected at once: the list is empty after frame 300.
  With the values of \<^const>\<open>edge_coin_rand\<close> the box of the new coin starts at the top
  edge, 12 pixels being half a coin.
\<close>

theorem coin_spawn_every_300_frames_counterexample:
  "map_option coins
     (run_frames demo_platform (replicate 300 idle_input) (initial_state centre_coin_rand))
     = Some []
   \<and> length (replicate 300 idle_input) = 300
   \<and> coinEffectiveHeight demo_platform sdiv 2 = 12
   \<and> rect_y (coinRect (coinEffectiveWidth demo_platform) (coinEffectiveHeight demo_platform)
               (last (coins (spawnCoin demo_platform (initial_state edge_coin_rand))))) = 0"
  by (simp add: run_300_coin_collected spawnCoin_coins demo_coin_size coinRect_def
      signed_divide_int_def signed_modulo_int_def float_to_int_def)
     (simp add: initial_state_def edge_coin_rand_def game_consts)

subsection \<open>The reflected flag, and frames in which nothing is hit\<close>



text \<open>
  Between two hits: a frame in which the ball meets no paddle and passes no side edge
  leaves \<open>last_ball_hit\<close> and both counters as they were. Only the coins may change a
  score in it.
\<close>

lemma quiet_frame_keeps_streak:
  assumes "frame p i s = Some s'" and "handle_events p (events i) s = Some s1"
    and "\<not> left_paddle_hit (wall_collisions (ball_movement (clamp_paddles (paddle_movement i s1))))"
    and "\<not> right_paddle_hit (wall_collisions (ball_movement (clamp_paddles (paddle_movement i s1))))"
    and "\<not> missed_left (after_paddles i s1)" and "\<not> missed_right (after_paddles i s1)"
  shows "last_ball_hit s' = last_ball_hit s
       \<and> left_consecutive_hits s' = left_consecutive_hits s
       \<and> right_consecutive_hits s' = right_consecutive_hits s"
proof -
  let ?w = "wall_collisions (ball_movement (clamp_paddles (paddle_movement i s1)))"
  from frame_Some [OF assms(1)] assms(2) obtain s2 where
    ob: "out_of_bounds p (after_paddles i s1) = Some s2"
    and s': "s' = coin_logic p (coin_spawn p (boost_logic s2))"
    by auto
  have ap: "after_paddles i s1 = ?w"
    using assms(3,4) by (simp add: after_paddles_def paddle_collisions_none)
  from assms(5,6) ob have "s2 = after_paddles i s1"
    by (auto simp add: out_of_bounds_def missed_left_def missed_right_def split: if_splits)
  then have "streak_memory s2 = streak_memory s1"
    by (simp add: ap wall_collisions_keeps ball_movement_keeps clamp_paddles_keeps
        paddle_movement_keeps)
  with handle_events_keeps [OF assms(2)] have "streak_memory s2 = streak_memory s"
    by simp
  then show ?thesis
    using boost_logic_keeps(4) [of s2]
    by (simp add: s' coin_logic_keeps coin_spawn_keeps streak_memory_def)
qed

subsection \<open>Frames return\<close>

lemma lucky_sdrop: "lucky p g \<Longrightarrow> lucky p (sdrop k g)"
  unfolding lucky_def
proof
  fix m
  assume "\<forall>m. \<exists>n. \<bar>sin (angle_of_rand p (sdrop m g !! n))\<bar> \<ge> 2 / 10
              \<and> \<bar>cos (angle_of_rand p (sdrop m g !! n))\<bar> \<ge> 2 / 10"
  then have "\<exists>n. \<bar>sin (angle_of_rand p (sdrop (k + m) g !! n))\<bar> \<ge> 2 / 10
              \<and> \<bar>cos (angle_of_rand p (sdrop (k + m) g !! n))\<bar> \<ge> 2 / 10"
    by blast
  then show "\<exists>n. \<bar>sin (angle_of_rand p (sdrop m (sdrop k g) !! n))\<bar> \<ge> 2 / 10
              \<and> \<bar>cos (angle_of_rand p (sdrop m (sdrop k g) !! n))\<bar> \<ge> 2 / 10"
    by simp
qed

lemma lucky_random_angle:
  assumes "lucky p g"
  shows "\<exists>a g'. random_angle p g = Some (a, g') \<and> lucky p g'"
proof -
  from assms obtain n where "\<bar>sin (angle_of_rand p (sdrop 0 g !! n))\<bar> \<ge> 2 / 10
      \<and> \<bar>cos (angle_of_rand p (sdrop 0 g !! n))\<bar> \<ge> 2 / 10"
    unfolding lucky_def by blast
  then have "\<not> (\<bar>sin (angle_of_rand p (g !! n))\<bar> < 2 / 10 \<or> \<bar>cos (angle_of_rand p (g !! n))\<bar> < 2 / 10)"
    by simp
  then have "random_angle p g \<noteq> None"
    by (rule random_angle_returns)
  then obtain y where y: "random_angle p g = Some y"
    by blast
  from random_angle_result [OF y] obtain k where "snd y = sdrop (Suc k) g"
    by blast
  with lucky_sdrop [OF assms, of "Suc k"] have "lucky p (snd y)"
    by simp
  with y show ?thesis
    by (intro exI [of _ "fst y"] exI [of _ "snd y"]) simp
qed

lemma mouse_button_down_returns:
  assumes "lucky p (rand_state s)"
  shows "\<exists>s'. mouse_button_down p mouseX mouseY s = Some s' \<and> lucky p (rand_state s')"
proof -
  from lucky_random_angle [OF assms] obtain a g' where
    "random_angle p (rand_state s) = Some (a, g')" "lucky p g'"
    by blast
  with assms show ?thesis
    by (simp add: mouse_button_down_def Let_def set_direction_unit)
qed

lemma handle_events_returns:
  "lucky p (rand_state s) \<Longrightarrow>
   \<exists>s'. handle_events p es s = Some s' \<and> lucky p (rand_state s')"
proof (induction es arbitrary: s)
  case Nil
  then show ?case by simp
next
  case (Cons e es)
  have "\<exists>s1. handle_event p e s = Some s1 \<and> lucky p (rand_state s1)"
  proof (cases e)
    case SDL_QUIT
    with Cons.prems show ?thesis by simp
  next
    case (SDL_MOUSEBUTTONDOWN mouseX mouseY)
    with mouse_button_down_returns [OF Cons.prems, of mouseX mouseY] show ?thesis by simp
  next
    case SDL_OTHER
    with Cons.prems show ?thesis by simp
  qed
  then obtain s1 where s1: "handle_event p e s = Some s1" "lucky p (rand_state s1)"
    by blast
  from Cons.IH [OF s1(2)] s1(1) show ?case
    by simp
qed

lemma out_of_bounds_returns:
  assumes "lucky p (rand_state s)"
  shows "\<exists>s'. out_of_bounds p s = Some s' \<and> lucky p (rand_state s')"
proof -
  from lucky_random_angle [OF assms] obtain a g' where
    "random_angle p (rand_state s) = Some (a, g')" "lucky p g'"
    by blast
  with assms show ?thesis
    by (simp add: out_of_bounds_def reset_ball_def Let_def set_direction_unit)
qed

text \<open>
  On a lucky stream every frame returns, and leaves a lucky stream behind; so does every
  run of frames, and the main loop.
\<close>

lemma frame_returns:
  assumes "lucky p (rand_state s)"
  shows "\<exists>s'. frame p i s = Some s' \<and> lucky p (rand_state s')"
proof -
  from handle_events_returns [OF assms, of "events i"] obtain s1 where
    s1: "handle_events p (events i) s = Some s1" "lucky p (rand_state s1)"
    by blast
  from s1(2) have "lucky p (rand_state (after_paddles i s1))"
    by (simp add: after_paddles_keeps)
  from out_of_bounds_returns [OF this] obtain s2 where
    s2: "out_of_bounds p (after_paddles i s1) = Some s2" "lucky p (rand_state s2)"
    by blast
  let ?b = "boost_logic s2"
  have "rand_state (coin_spawn p ?b) = rand_state s2
      \<or> rand_state (coin_spawn p ?b) = sdrop 2 (rand_state s2)"
    by (simp add: coin_spawn_def spawnCoin_def Let_def boost_logic_keeps numeral_2_eq_2)
  with s2(2) lucky_sdrop [OF s2(2), of 2] have "lucky p (rand_state (coin_spawn p ?b))"
    by auto
  then have "lucky p (rand_state (coin_logic p (coin_spawn p ?b)))"
    by (simp add: coin_logic_keeps)
  with s1(1) s2(1) show ?thesis
    by (simp add: frame_def after_paddles_def)
qed

lemma run_frames_returns:
  "lucky p (rand_state s) \<Longrightarrow> run_frames p is s \<noteq> None"
proof (induction "is" arbitrary: s)
  case Nil
  then show ?case by simp
next
  case (Cons i "is")
  from frame_returns [OF Cons.prems, of i] obtain s' where
    s': "frame p i s = Some s'" "lucky p (rand_state s')"
    by blast
  from Cons.IH [OF s'(2)] s'(1) show ?case
    by simp
qed

lemma main_loop_returns:
  "lucky p (rand_state s) \<Longrightarrow> main_loop p is s \<noteq> None"
proof (induction "is" arbitrary: s)
  case Nil
  then show ?case by simp
next
  case (Cons i "is")
  from frame_returns [OF Cons.prems, of i] obtain s' where
    s': "frame p i s = Some s'" "lucky p (rand_state s')"
    by blast
  from Cons.IH [OF s'(2)] s'(1) show ?case
    by simp
qed

lemma demo_stream_lucky: "lucky demo_platform (sconst 4096)"
  using demo_angle_accepted by (simp add: lucky_def demo_angle_def)

subsection \<open>The coin section as a whole\<close>

lemma coin_points_scene:
  "same_scene s t \<Longrightarrow> spec_coin_points p cw ch t c = spec_coin_points p cw ch s c"
  by (simp add: spec_coin_points_def same_scene_def ball_on_coin_def Let_def)

lemma coin_stays_scene:
  "same_scene s t \<Longrightarrow> spec_coin_stays p cw ch t c = spec_coin_stays p cw ch s c"
  by (simp add: spec_coin_stays_def coin_touched_scene)

lemma coin_points_range:
  "spec_coin_points p cw ch s c = (0, 0) \<or> spec_coin_points p cw ch s c = (1, 0)
     \<or> spec_coin_points p cw ch s c = (0, 1)"
  by (simp add: spec_coin_points_def Let_def split: LastHit.split)

lemma coin_stays_no_points:
  "spec_coin_stays p cw ch s c \<Longrightarrow> spec_coin_points p cw ch s c = (0, 0)"
  by (simp add: spec_coin_stays_def spec_coin_points_def coin_touched_def Let_def)

lemma collect_coin_points:
  "snd (collect_coin p r s) =
     (if ball_on_coin r s then
        (case last_ball_hit s of
           NoPaddle \<Rightarrow> s
         | LeftPaddle \<Rightarrow> s\<lparr> left_score := left_score s + 1 \<rparr>
         | RightPaddle \<Rightarrow> s\<lparr> right_score := right_score s + 1 \<rparr>)
      else if SDL_HasIntersection p (leftPaddle s) r then s\<lparr> left_score := left_score s + 1 \<rparr>
      else if SDL_HasIntersection p (rightPaddle s) r then s\<lparr> right_score := right_score s + 1 \<rparr>
      else s)"
  by (cases "ball_on_coin r s"; cases "SDL_HasIntersection p (leftPaddle s) r";
      cases "SDL_HasIntersection p (rightPaddle s) r")
     (simp_all add: collect_coin_ball collect_coin_left collect_coin_right collect_coin_none
        coin_touched_def split: LastHit.split)

lemma coin_loop_single_points:
  "coin_loop p cw ch [c] s =
     (if spec_coin_stays p cw ch s c then [age_coin c] else [],
      s\<lparr> left_score := left_score s + fst (spec_coin_points p cw ch s c),
         right_score := right_score s + snd (spec_coin_points p cw ch s c) \<rparr>)"
  by (simp add: coin_loop_single collect_coin_points spec_coin_stays_def spec_coin_points_def
      coin_touched_def Let_def split: LastHit.split del: coin_loop.simps)

lemma coin_loop_points:
  "coin_loop p cw ch cs s =
     (map age_coin (filter (spec_coin_stays p cw ch s) cs),
      s\<lparr> left_score := left_score s + (\<Sum>c\<leftarrow>cs. fst (spec_coin_points p cw ch s c)),
         right_score := right_score s + (\<Sum>c\<leftarrow>cs. snd (spec_coin_points p cw ch s c)) \<rparr>)"
proof (induction cs arbitrary: s)
  case Nil
  show ?case by simp
next
  case (Cons c cs)
  let ?s1 = "s\<lparr> left_score := left_score s + fst (spec_coin_points p cw ch s c),
                 right_score := right_score s + snd (spec_coin_points p cw ch s c) \<rparr>"
  have scene: "same_scene s ?s1"
    by (simp add: same_scene_def)
  have one: "coin_loop p cw ch [c] s = (if spec_coin_stays p cw ch s c then [age_coin c] else [], ?s1)"
    by (rule coin_loop_single_points)
  have rest: "coin_loop p cw ch cs ?s1 =
     (map age_coin (filter (spec_coin_stays p cw ch s) cs),
      ?s1\<lparr> left_score := left_score ?s1 + (\<Sum>c\<leftarrow>cs. fst (spec_coin_points p cw ch s c)),
           right_score := right_score ?s1 + (\<Sum>c\<leftarrow>cs. snd (spec_coin_points p cw ch s c)) \<rparr>)"
    using Cons.IH [of ?s1]
    by (simp only: coin_points_scene [OF scene] coin_stays_scene [OF scene])
  show ?case
    by (subst coin_loop_Cons) (simp add: one rest del: coin_loop.simps)
qed

lemma coin_logic_points:
  "coin_logic p s =
     s\<lparr> left_score := left_score s
           + (\<Sum>c\<leftarrow>coins s. fst (spec_coin_points p (coinEffectiveWidth p) (coinEffectiveHeight p) s c)),
        right_score := right_score s
           + (\<Sum>c\<leftarrow>coins s. snd (spec_coin_points p (coinEffectiveWidth p) (coinEffectiveHeight p) s c)),
        coins := map age_coin
                   (filter (spec_coin_stays p (coinEffectiveWidth p) (coinEffectiveHeight p) s) (coins s)) \<rparr>"
  by (simp add: coin_logic_def Let_def coin_loop_points del: coin_loop.simps)

text \<open>
  Claim C4. The tests on a coin whose timer has not run out: when the ball is on the coin it
  is collected and the point goes to the side in \<open>last_ball_hit\<close>, to nobody when that is
  \<open>NoPaddle\<close>, whatever the paddles touch; otherwise the left paddle on the coin collects
  it for the left score; otherwise the right paddle for the right score; otherwise nothing
  changes. So one coin raises the sum of the scores by at most 1, and lowers no score. The
  loop handles the first coin of the list and then the others from the state it left, and
  the coin section of a frame is this loop on the coins of the state. Hence, for every list
  of coins, the section changes nothing but the list and the two scores: it keeps, one
  frame older and in their order, exactly the coins that have time left and are touched by
  nothing, and adds to each score the points of all the coins, each coin bringing one
  point to one side or none, as \<^const>\<open>spec_coin_points\<close> says, and none when it stays.
\<close>

theorem coin_collected_once_by_priority:
  "(ball_on_coin r s \<longrightarrow>
      collect_coin p r s =
        (True, if last_ball_hit s = LeftPaddle then s\<lparr> left_score := left_score s + 1 \<rparr>
               else if last_ball_hit s = RightPaddle then s\<lparr> right_score := right_score s + 1 \<rparr>
               else s))
 \<and> (\<not> ball_on_coin r s \<and> SDL_HasIntersection p (leftPaddle s) r \<longrightarrow>
      collect_coin p r s = (True, s\<lparr> left_score := left_score s + 1 \<rparr>))
 \<and> (\<not> ball_on_coin r s \<and> \<not> SDL_HasIntersection p (leftPaddle s) r
      \<and> SDL_HasIntersection p (rightPaddle s) r \<longrightarrow>
      collect_coin p r s = (True, s\<lparr> right_score := right_score s + 1 \<rparr>))
 \<and> (\<not> coin_touched p r s \<longrightarrow> collect_coin p r s = (False, s))
 \<and> total_score (snd (collect_coin p r s)) \<le> total_score s + 1
 \<and> left_score s \<le> left_score (snd (collect_coin p r s))
 \<and> right_score s \<le> right_score (snd (collect_coin p r s))
 \<and> coin_loop p cw ch [c] s =
      (if coin_timer c - 1 \<le> 0 then ([], s)
       else if coin_touched p (coinRect cw ch (age_coin c)) s
            then ([], snd (collect_coin p (coinRect cw ch (age_coin c)) s))
            else ([age_coin c], s))
 \<and> total_score (snd (coin_loop p cw ch cs s)) \<le> total_score s + int (length cs)
 \<and> coin_loop p cw ch (c # cs) s =
      (fst (coin_loop p cw ch [c] s)
         @ fst (coin_loop p cw ch cs (snd (coin_loop p cw ch [c] s))),
       snd (coin_loop p cw ch cs (snd (coin_loop p cw ch [c] s))))
 \<and> coin_loop p cw ch cs s =
      (map age_coin (filter (spec_coin_stays p cw ch s) cs),
       s\<lparr> left_score := left_score s + (\<Sum>c\<leftarrow>cs. fst (spec_coin_points p cw ch s c)),
          right_score := right_score s + (\<Sum>c\<leftarrow>cs. snd (spec_coin_points p cw ch s c)) \<rparr>)
 \<and> coin_logic p s =
      s\<lparr> left_score := left_score s
            + (\<Sum>c\<leftarrow>coins s. fst (spec_coin_points p (coinEffectiveWidth p) (coinEffectiveHeight p) s c)),
         right_score := right_score s
            + (\<Sum>c\<leftarrow>coins s. snd (spec_coin_points p (coinEffectiveWidth p) (coinEffectiveHeight p) s c)),
         coins := map age_coin
                    (filter (spec_coin_stays p (coinEffectiveWidth p) (coinEffectiveHeight p) s) (coins s)) \<rparr>
 \<and> (spec_coin_points p cw ch s c = (0, 0) \<or> spec_coin_points p cw ch s c = (1, 0)
      \<or> spec_coin_points p cw ch s c = (0, 1))
 \<and> (spec_coin_stays p cw ch s c \<longrightarrow> spec_coin_points p cw ch s c = (0, 0))"
proof -
  have tests: "(ball_on_coin r s \<longrightarrow>
      collect_coin p r s =
        (True, if last_ball_hit s = LeftPaddle then s\<lparr> left_score := left_score s + 1 \<rparr>
               else if last_ball_hit s = RightPaddle then s\<lparr> right_score := right_score s + 1 \<rparr>
               else s))
   \<and> (\<not> ball_on_coin r s \<and> SDL_HasIntersection p (leftPaddle s) r \<longrightarrow>
        collect_coin p r s = (True, s\<lparr> left_score := left_score s + 1 \<rparr>))
   \<and> (\<not> ball_on_coin r s \<and> \<not> SDL_HasIntersection p (leftPaddle s) r
        \<and> SDL_HasIntersection p (rightPaddle s) r \<longrightarrow>
        collect_coin p r s = (True, s\<lparr> right_score := right_score s + 1 \<rparr>))
   \<and> (\<not> coin_touched p r s \<longrightarrow> collect_coin p r s = (False, s))"
    by (simp add: collect_coin_ball collect_coin_left collect_coin_right collect_coin_none)
  have stays: "spec_coin_stays p cw ch s c \<longrightarrow> spec_coin_points p cw ch s c = (0, 0)"
    by (simp add: coin_stays_no_points)
  show ?thesis
    by (intro conjI)
       (use tests in blast, use tests in blast, use tests in blast, use tests in blast,
        use collect_coin_scores [of p r s] in blast,
        use collect_coin_scores [of p r s] in blast,
        use collect_coin_scores [of p r s] in blast,
        rule coin_loop_single, rule coin_loop_total, rule coin_loop_Cons,
        rule coin_loop_points, rule coin_logic_points, rule coin_points_range, rule stays)
qed

lemma two_coins_sel:
  "ball_x two_coins = 400" "ball_y two_coins = 300"
  "last_ball_hit two_coins = LeftPaddle"
  "leftPaddle two_coins = leftPaddle fresh_game"
  "rightPaddle two_coins = rightPaddle fresh_game"
  "left_score two_coins = 0" "right_score two_coins = 0"
  "coins two_coins = [\<lparr> coin_x = 402, coin_y = 302, coin_timer = 300 \<rparr>,
                      \<lparr> coin_x = 212, coin_y = 112, coin_timer = 600 \<rparr>]"
  by (simp_all add: two_coins_def ball_at_def fresh_game_def initial_state_def)

lemma two_coins_boxes:
  "coinRect 25 25 (age_coin \<lparr> coin_x = 402, coin_y = 302, coin_timer = 300 \<rparr>) = box_at 390 290"
  "coinRect 25 25 (age_coin \<lparr> coin_x = 212, coin_y = 112, coin_timer = 600 \<rparr>) = box_at 200 100"
  "ball_on_coin (box_at 390 290) two_coins"
  "\<not> coin_touched demo_platform (box_at 200 100) two_coins"
  by (simp_all add: coinRect_def age_coin_def box_at_def signed_divide_int_def float_to_int_def
      ball_on_coin_def coin_touched_def checkCircleRectCollision_def BALL_RADIUS_15
      two_coins_sel fresh_game_paddles demo_platform_sel sdl_has_intersection_def)

lemma two_coins_pass:
  "spec_coin_points demo_platform 25 25 two_coins \<lparr> coin_x = 402, coin_y = 302, coin_timer = 300 \<rparr> = (1, 0)"
  "spec_coin_points demo_platform 25 25 two_coins \<lparr> coin_x = 212, coin_y = 112, coin_timer = 600 \<rparr> = (0, 0)"
  "\<not> spec_coin_stays demo_platform 25 25 two_coins \<lparr> coin_x = 402, coin_y = 302, coin_timer = 300 \<rparr>"
  "spec_coin_stays demo_platform 25 25 two_coins \<lparr> coin_x = 212, coin_y = 112, coin_timer = 600 \<rparr>"
  using two_coins_boxes(3,4)
  by (simp_all add: spec_coin_points_def spec_coin_stays_def Let_def two_coins_boxes(1,2)
      two_coins_sel coin_touched_def)

theorem coin_collected_once_by_priority_witness:
  "ball_on_coin (box_at 10 290) (into_left_paddle fresh_game)
   \<and> SDL_HasIntersection demo_platform (leftPaddle (into_left_paddle fresh_game)) (box_at 10 290)
   \<and> last_ball_hit (into_left_paddle fresh_game) = NoPaddle
   \<and> collect_coin demo_platform (box_at 10 290) (into_left_paddle fresh_game)
       = (True, into_left_paddle fresh_game)
   \<and> \<not> ball_on_coin (box_at 10 290) fresh_game
   \<and> SDL_HasIntersection demo_platform (leftPaddle fresh_game) (box_at 10 290)
   \<and> collect_coin demo_platform (box_at 10 290) fresh_game
       = (True, fresh_game\<lparr> left_score := 1 \<rparr>)
   \<and> \<not> ball_on_coin (box_at 770 290) fresh_game
   \<and> \<not> SDL_HasIntersection demo_platform (leftPaddle fresh_game) (box_at 770 290)
   \<and> SDL_HasIntersection demo_platform (rightPaddle fresh_game) (box_at 770 290)
   \<and> collect_coin demo_platform (box_at 770 290) fresh_game
       = (True, fresh_game\<lparr> right_score := 1 \<rparr>)
   \<and> \<not> coin_touched demo_platform (box_at 200 100) fresh_game
   \<and> collect_coin demo_platform (box_at 200 100) fresh_game = (False, fresh_game)
   \<and> ball_on_coin (box_at 390 290) two_coins
   \<and> last_ball_hit two_coins = LeftPaddle
   \<and> collect_coin demo_platform (box_at 390 290) two_coins
       = (True, two_coins\<lparr> left_score := 1 \<rparr>)
   \<and> spec_coin_stays demo_platform 25 25 two_coins \<lparr> coin_x = 212, coin_y = 112, coin_timer = 600 \<rparr>
   \<and> spec_coin_points demo_platform 25 25 two_coins \<lparr> coin_x = 212, coin_y = 112, coin_timer = 600 \<rparr>
       = (0, 0)
   \<and> coin_logic demo_platform two_coins
       = two_coins\<lparr> left_score := 1,
                       coins := [\<lparr> coin_x = 212, coin_y = 112, coin_timer = 599 \<rparr>] \<rparr>"
proof -
  have scores: "left_score fresh_game = 0" "right_score fresh_game = 0"
    "last_ball_hit (into_left_paddle fresh_game) = NoPaddle"
    using fresh_game_memory by (simp_all add: streak_memory_def into_left_paddle_def)
  have same: "two_coins\<lparr> right_score := 0 \<rparr> = two_coins"
    using two_coins_sel(7) by simp
  have tests: "collect_coin demo_platform (box_at 10 290) (into_left_paddle fresh_game)
       = (True, into_left_paddle fresh_game)
     \<and> collect_coin demo_platform (box_at 10 290) fresh_game = (True, fresh_game\<lparr> left_score := 1 \<rparr>)
     \<and> collect_coin demo_platform (box_at 770 290) fresh_game = (True, fresh_game\<lparr> right_score := 1 \<rparr>)
     \<and> collect_coin demo_platform (box_at 200 100) fresh_game = (False, fresh_game)
     \<and> collect_coin demo_platform (box_at 390 290) two_coins = (True, two_coins\<lparr> left_score := 1 \<rparr>)"
    using coin_collected_once_by_priority [where r = "box_at 10 290"
        and s = "into_left_paddle fresh_game" and p = demo_platform]
      coin_collected_once_by_priority [where r = "box_at 10 290" and s = fresh_game
        and p = demo_platform]
      coin_collected_once_by_priority [where r = "box_at 770 290" and s = fresh_game
        and p = demo_platform]
      coin_collected_once_by_priority [where r = "box_at 200 100" and s = fresh_game
        and p = demo_platform]
      coin_collected_once_by_priority [where r = "box_at 390 290" and s = two_coins
        and p = demo_platform]
    by (simp add: demo_boxes demo_platform_sel coin_touched_def scores two_coins_boxes
        two_coins_sel)
  have "coin_logic demo_platform two_coins
       = two_coins\<lparr> left_score := left_score two_coins + (1 + (0 + 0)),
                     right_score := right_score two_coins + (0 + (0 + 0)),
                       coins := [age_coin \<lparr> coin_x = 212, coin_y = 112, coin_timer = 600 \<rparr>] \<rparr>"
    using coin_collected_once_by_priority [where s = two_coins and p = demo_platform,
        THEN conjunct2, THEN conjunct2, THEN conjunct2, THEN conjunct2, THEN conjunct2,
        THEN conjunct2, THEN conjunct2, THEN conjunct2, THEN conjunct2, THEN conjunct2,
        THEN conjunct2, THEN conjunct1]
    by (simp only: demo_coin_size two_coins_sel(8) two_coins_pass list.map filter.simps
        sum_list.Cons sum_list.Nil fst_conv snd_conv if_True if_False)
  then have pass: "coin_logic demo_platform two_coins
       = two_coins\<lparr> left_score := 1,
                       coins := [\<lparr> coin_x = 212, coin_y = 112, coin_timer = 599 \<rparr>] \<rparr>"
    by (simp add: two_coins_sel age_coin_def same)
  have stays: "spec_coin_points demo_platform 25 25 two_coins
      \<lparr> coin_x = 212, coin_y = 112, coin_timer = 600 \<rparr> = (0, 0)"
    using coin_collected_once_by_priority [where s = two_coins and p = demo_platform
        and cw = 25 and ch = 25 and c = "\<lparr> coin_x = 212, coin_y = 112, coin_timer = 600 \<rparr>"]
      two_coins_pass(4)
    by blast
  show ?thesis
    using tests pass stays
    by (simp add: demo_boxes demo_platform_sel coin_touched_def scores two_coins_boxes
        two_coins_sel two_coins_pass)
qed

subsection \<open>The consecutive-hit rule in the runs of the game\<close>

















subsection \<open>Two serves that reach a paddle\<close>




































subsection \<open>The timeline of a boost\<close>











end
